theory Spec2Isabelle
  imports Complex_Main "HOL-Library.Char_ord"
begin

section \<open>Character classes and the regular expressions of the address validator\<close>

text \<open>
  A bracket expression such as \<^verbatim>\<open>[a-km-z]\<close> is a predicate on characters; a range
  \<^verbatim>\<open>x-y\<close> compares character codes.
\<close>

definition rng :: "char \<Rightarrow> char \<Rightarrow> char \<Rightarrow> bool" where
  "rng lo hi c = (lo \<le> c \<and> c \<le> hi)"

text \<open>\<^verbatim>\<open>[a-km-zA-HJ-NP-Z1-9]\<close>\<close>
definition cls_base58 :: "char \<Rightarrow> bool" where
  "cls_base58 c = (rng CHR ''a'' CHR ''k'' c \<or> rng CHR ''m'' CHR ''z'' c \<or> rng CHR ''A'' CHR ''H'' c
     \<or> rng CHR ''J'' CHR ''N'' c \<or> rng CHR ''P'' CHR ''Z'' c \<or> rng CHR ''1'' CHR ''9'' c)"

text \<open>\<^verbatim>\<open>[a-z]\<close> and \<^verbatim>\<open>[A-Z]\<close>\<close>
definition cls_lower :: "char \<Rightarrow> bool" where
  "cls_lower c = rng CHR ''a'' CHR ''z'' c"

definition cls_upper :: "char \<Rightarrow> bool" where
  "cls_upper c = rng CHR ''A'' CHR ''Z'' c"

text \<open>\<^verbatim>\<open>[ac-hj-np-z02-9]\<close> and \<^verbatim>\<open>[AC-HJ-NP-Z02-9]\<close>\<close>
definition cls_bech32 :: "char \<Rightarrow> bool" where
  "cls_bech32 c = (c = CHR ''a'' \<or> rng CHR ''c'' CHR ''h'' c \<or> rng CHR ''j'' CHR ''n'' c
     \<or> rng CHR ''p'' CHR ''z'' c \<or> c = CHR ''0'' \<or> rng CHR ''2'' CHR ''9'' c)"

definition cls_BECH32 :: "char \<Rightarrow> bool" where
  "cls_BECH32 c = (c = CHR ''A'' \<or> rng CHR ''C'' CHR ''H'' c \<or> rng CHR ''J'' CHR ''N'' c
     \<or> rng CHR ''P'' CHR ''Z'' c \<or> c = CHR ''0'' \<or> rng CHR ''2'' CHR ''9'' c)"

text \<open>\<^verbatim>\<open>[a-fA-F0-9]\<close>\<close>
definition cls_hex :: "char \<Rightarrow> bool" where
  "cls_hex c = (rng CHR ''a'' CHR ''f'' c \<or> rng CHR ''A'' CHR ''F'' c \<or> rng CHR ''0'' CHR ''9'' c)"

text \<open>A literal character of a pattern.\<close>
definition lit :: "char \<Rightarrow> char \<Rightarrow> bool" where
  "lit a c = (c = a)"

text \<open>
  Every alternative of the validator's patterns is a sequence of items \<^verbatim>\<open>[class]{lo,hi}\<close>
  (a literal is a class of one character repeated once). \<open>match_seq its s\<close> lists what is
  left of \<open>s\<close> after each way the sequence can match at the start of \<open>s\<close>: an item takes
  any \<open>k\<close> characters of its class with \<open>lo \<le> k \<le> hi\<close>.
\<close>

type_synonym item = "(char \<Rightarrow> bool) \<times> nat \<times> nat"

fun match_seq :: "item list \<Rightarrow> string \<Rightarrow> string list" where
  "match_seq [] s = [s]"
| "match_seq ((c, lo, hi) # its) s =
     concat (map (\<lambda>k. match_seq its (drop k s)) [lo..<Suc (min hi (length (takeWhile c s)))])"

text \<open>
  An alternative carries its anchors: \<^verbatim>\<open>^\<close> (match only at the start of the input) and
  \<^verbatim>\<open>$\<close> (match only up to its end). Without \<^verbatim>\<open>^\<close> the match may start at any position.
\<close>

type_synonym alt = "bool \<times> item list \<times> bool"

definition starts :: "string \<Rightarrow> string list" where
  "starts s = map (\<lambda>i. drop i s) [0..<Suc (length s)]"

definition alt_test :: "alt \<Rightarrow> string \<Rightarrow> bool" where
  "alt_test a s = (case a of (bol, its, eol) \<Rightarrow>
     list_ex (\<lambda>t. list_ex (\<lambda>r. if eol then r = [] else True) (match_seq its t))
       (if bol then [s] else starts s))"

text \<open>\<^verbatim>\<open>RegExp.prototype.test\<close> on a pattern that is a list of alternatives.\<close>
definition re_test :: "alt list \<Rightarrow> string \<Rightarrow> bool" where
  "re_test alts s = list_ex (\<lambda>a. alt_test a s) alts"

text \<open>The items of the six address shapes.\<close>
definition seq_legacy :: "item list" where
  "seq_legacy = [(cls_base58, 26, 35)]"

definition seq_legacy80 :: "item list" where
  "seq_legacy80 = [(cls_base58, 80, 80)]"

definition seq_bech32 :: "item list" where
  "seq_bech32 = [(cls_lower, 2, 5), (lit CHR ''1'', 1, 1), (cls_bech32, 8, 100)]"

definition seq_BECH32 :: "item list" where
  "seq_BECH32 = [(cls_upper, 2, 5), (lit CHR ''1'', 1, 1), (cls_BECH32, 8, 100)]"

definition seq_p2pk_04 :: "item list" where
  "seq_p2pk_04 = [(lit CHR ''0'', 1, 1), (lit CHR ''4'', 1, 1), (cls_hex, 128, 128)]"

definition seq_p2pk_02 :: "item list" where
  "seq_p2pk_02 = [(lit CHR ''0'', 1, 1), (lit CHR ''2'', 1, 1), (cls_hex, 64, 64)]"

definition seq_p2pk_03 :: "item list" where
  "seq_p2pk_03 = [(lit CHR ''0'', 1, 1), (lit CHR ''3'', 1, 1), (cls_hex, 64, 64)]"

text \<open>
  The first pattern of \<^verbatim>\<open>testAddress\<close>,
  \<^verbatim>\<open>/^(legacy|legacy80|bech32|BECH32|04..|(02|03)..)$/\<close>: the group puts every alternative
  between both anchors.
\<close>
definition re_address :: "alt list" where
  "re_address = [(True, seq_legacy, True), (True, seq_legacy80, True), (True, seq_bech32, True),
     (True, seq_BECH32, True), (True, seq_p2pk_04, True), (True, seq_p2pk_02, True),
     (True, seq_p2pk_03, True)]"

text \<open>
  The second pattern, \<^verbatim>\<open>/^BECH32|04[a-fA-F0-9]{128}|(02|03)[a-fA-F0-9]{64}$/\<close>, has no
  group: \<^verbatim>\<open>^\<close> belongs to its first alternative only and \<^verbatim>\<open>$\<close> to its last only.
\<close>
definition re_tolower :: "alt list" where
  "re_tolower = [(True, seq_BECH32, False), (False, seq_p2pk_04, False),
     (False, seq_p2pk_02, True), (False, seq_p2pk_03, True)]"

text \<open>\<^verbatim>\<open>/^04[a-fA-F0-9]{128}$/\<close> and \<^verbatim>\<open>/^(02|03)[a-fA-F0-9]{64}$/\<close>\<close>
definition re_uncompressed :: "alt list" where
  "re_uncompressed = [(True, seq_p2pk_04, True)]"

definition re_compressed :: "alt list" where
  "re_compressed = [(True, seq_p2pk_02, True), (True, seq_p2pk_03, True)]"

text \<open>
  \<^verbatim>\<open>String.prototype.toLowerCase\<close>. Only strings accepted by the first pattern reach it;
  they consist of ASCII letters and digits, where it maps \<^verbatim>\<open>A-Z\<close> to \<^verbatim>\<open>a-z\<close>.
\<close>
definition lower_char :: "char \<Rightarrow> char" where
  "lower_char c = (if rng CHR ''A'' CHR ''Z'' c then char_of (of_char c + (32::nat)) else c)"

definition toLowerCase :: "string \<Rightarrow> string" where
  "toLowerCase s = map lower_char s"

text \<open>\<^verbatim>\<open>testAddress\<close>: the canonical form, or \<open>None\<close> for the source's \<^verbatim>\<open>false\<close>.\<close>
definition testAddress :: "string \<Rightarrow> string option" where
  "testAddress address =
     (if re_test re_address address then
        (let address' = (if re_test re_tolower address then toLowerCase address else address) in
         if re_test re_uncompressed address' then Some (''41'' @ address' @ ''ac'')
         else if re_test re_compressed address' then Some (''21'' @ address' @ ''ac'')
         else Some address')
      else None)"

subsection \<open>The address shapes, as the specification names them\<close>

text \<open>
  Legacy base58: 26 to 35, or 80, characters of the base58 alphabet.
\<close>
definition is_legacy :: "string \<Rightarrow> bool" where
  "is_legacy s = (list_all cls_base58 s \<and> ((26 \<le> length s \<and> length s \<le> 35) \<or> length s = 80))"

text \<open>
  A bech32 string is a human-readable part of 2 to 5 letters, the separator \<^verbatim>\<open>1\<close> and
  8 to 100 characters of the bech32 alphabet. The human-readable part is what stands
  before the first \<^verbatim>\<open>1\<close>.
\<close>
definition hrp_of :: "string \<Rightarrow> string" where
  "hrp_of s = takeWhile (\<lambda>c. c \<noteq> CHR ''1'') s"

definition body_of :: "string \<Rightarrow> string" where
  "body_of s = drop (Suc (length (hrp_of s))) s"

definition is_bech32 :: "string \<Rightarrow> bool" where
  "is_bech32 s = (length (hrp_of s) < length s \<and> 2 \<le> length (hrp_of s) \<and> length (hrp_of s) \<le> 5
     \<and> list_all cls_lower (hrp_of s) \<and> 8 \<le> length (body_of s) \<and> length (body_of s) \<le> 100
     \<and> list_all cls_bech32 (body_of s))"

definition is_BECH32 :: "string \<Rightarrow> bool" where
  "is_BECH32 s = (length (hrp_of s) < length s \<and> 2 \<le> length (hrp_of s) \<and> length (hrp_of s) \<le> 5
     \<and> list_all cls_upper (hrp_of s) \<and> 8 \<le> length (body_of s) \<and> length (body_of s) \<le> 100
     \<and> list_all cls_BECH32 (body_of s))"

text \<open>
  The string begins like an uppercase bech32 string: 2 to 5 uppercase letters, \<^verbatim>\<open>1\<close> and
  at least 8 characters of the uppercase bech32 alphabet; anything may follow.
\<close>
definition BECH32_prefixed :: "string \<Rightarrow> bool" where
  "BECH32_prefixed s = (length (hrp_of s) < length s \<and> 2 \<le> length (hrp_of s) \<and> length (hrp_of s) \<le> 5
     \<and> list_all cls_upper (hrp_of s) \<and> 8 \<le> length (takeWhile cls_BECH32 (body_of s)))"

text \<open>Public keys: \<^verbatim>\<open>04\<close> and 128 hex digits; \<^verbatim>\<open>02\<close> or \<^verbatim>\<open>03\<close> and 64 hex digits.\<close>
definition is_uncompressed :: "string \<Rightarrow> bool" where
  "is_uncompressed s = (length s = 130 \<and> take 2 s = ''04'' \<and> list_all cls_hex (drop 2 s))"

definition is_compressed :: "string \<Rightarrow> bool" where
  "is_compressed s = (length s = 66 \<and> (take 2 s = ''02'' \<or> take 2 s = ''03'') \<and> list_all cls_hex (drop 2 s))"

section \<open>JSON values, \<^verbatim>\<open>JSON.stringify\<close> and JSON texts\<close>

text \<open>
  The values that collaborators hand to the handler and that \<^verbatim>\<open>JSON.parse\<close> returns.
  \<open>JNum\<close> is an integral number that prints as its decimal digits (of magnitude below
  \<^verbatim>\<open>1e21\<close>); \<open>JReal\<close> is any other number, carried by the text that \<^verbatim>\<open>JSON.stringify\<close> and
  the conversion to a string print for it. \<open>JNull\<close> also stands for \<^verbatim>\<open>undefined\<close> where a
  collaborator returns it. The keys of an object are distinct and in property order.
\<close>

datatype json = JNull | JBool bool | JNum int | JReal string | JStr string
  | JArr "json list" | JObj "(string \<times> json) list"

definition dq :: char where
  "dq = CHR 0x22"

definition bs :: char where
  "bs = CHR 0x5C"

text \<open>\<^verbatim>\<open>Array.prototype.join\<close>\<close>
fun join :: "string \<Rightarrow> string list \<Rightarrow> string" where
  "join sep [] = []"
| "join sep [x] = x"
| "join sep (x # y # ys) = x @ sep @ join sep (y # ys)"

text \<open>
  Decimal text of a number, as a template literal and \<^verbatim>\<open>JSON.stringify\<close> print it;
  \<open>digit_char\<close> is the digit of a value below 16.
\<close>
definition digit_char :: "nat \<Rightarrow> char" where
  "digit_char n = ''0123456789abcdef'' ! n"

fun show_nat :: "nat \<Rightarrow> string" where
  "show_nat n = (if n < 10 then [digit_char n] else show_nat (n div 10) @ [digit_char (n mod 10)])"

declare show_nat.simps [simp del]

definition show_int :: "int \<Rightarrow> string" where
  "show_int i = (if i < 0 then CHR ''-'' # show_nat (nat (- i)) else show_nat (nat i))"

definition escape_char :: "char \<Rightarrow> string" where
  "escape_char c =
     (if c = dq then [bs, dq]
      else if c = bs then [bs, bs]
      else if c = CHR 0x08 then [bs, CHR ''b'']
      else if c = CHR 0x0C then [bs, CHR ''f'']
      else if c = CHR 0x0A then [bs, CHR ''n'']
      else if c = CHR 0x0D then [bs, CHR ''r'']
      else if c = CHR 0x09 then [bs, CHR ''t'']
      else if (of_char c :: nat) < 32
        then [bs, CHR ''u'', CHR ''0'', CHR ''0'', digit_char (of_char c div 16), digit_char (of_char c mod 16)]
      else [c])"

definition quote :: "string \<Rightarrow> string" where
  "quote s = dq # concat (map escape_char s) @ [dq]"

fun stringify :: "json \<Rightarrow> string" where
  "stringify JNull = ''null''"
| "stringify (JBool b) = (if b then ''true'' else ''false'')"
| "stringify (JNum n) = show_int n"
| "stringify (JReal t) = t"
| "stringify (JStr s) = quote s"
| "stringify (JArr xs) = ''['' @ join '','' (map stringify xs) @ '']''"
| "stringify (JObj kvs) =
     ''{'' @ join '','' (map (\<lambda>kv. quote (fst kv) @ '':'' @ stringify (snd kv)) kvs) @ ''}''"

text \<open>Property access and truthiness.\<close>
fun jget :: "string \<Rightarrow> json \<Rightarrow> json option" where
  "jget k (JObj kvs) = map_of kvs k"
| "jget k _ = None"

fun truthy :: "json \<Rightarrow> bool" where
  "truthy JNull = False"
| "truthy (JBool b) = b"
| "truthy (JNum n) = (n \<noteq> 0)"
| "truthy (JReal t) = True"
| "truthy (JStr s) = (s \<noteq> [])"
| "truthy (JArr xs) = True"
| "truthy (JObj kvs) = True"

definition truthy_opt :: "json option \<Rightarrow> bool" where
  "truthy_opt v = (case v of None \<Rightarrow> False | Some j \<Rightarrow> truthy j)"

text \<open>
  The string a value is converted to where a string is expected: by \<^verbatim>\<open>RegExp.prototype.test\<close>,
  by \<^verbatim>\<open>+\<close> with a string, and as a property key. A string is itself; an integral number
  (below \<^verbatim>\<open>1e21\<close> in magnitude) is its decimal text; an array is its elements joined by
  commas, \<^verbatim>\<open>null\<close> elements giving the empty string; an object is \<^verbatim>\<open>[object Object]\<close>.
\<close>
fun js_string :: "json \<Rightarrow> string" where
  "js_string JNull = ''null''"
| "js_string (JBool b) = (if b then ''true'' else ''false'')"
| "js_string (JNum n) = show_int n"
| "js_string (JReal t) = t"
| "js_string (JStr s) = s"
| "js_string (JArr xs) = join '','' (map (\<lambda>x. if x = JNull then [] else js_string x) xs)"
| "js_string (JObj kvs) = ''[object Object]''"

text \<open>
  The exception thrown by a call of a method that the value does not have, such as
  \<^verbatim>\<open>toLowerCase\<close> on a number or an array, or by reading a property of \<^verbatim>\<open>null\<close>.
\<close>
datatype error = TypeError

subsection \<open>Syntactically valid JSON texts (RFC 8259)\<close>

text \<open>
  A text is cut into tokens by a scanner that reads one character at a time; the tokens
  are then checked against the grammar of values, arrays and objects by a stack machine.
  A number or a literal name is the longest run of characters that can occur in one,
  checked as a whole when it ends.
\<close>

datatype token = TLBrace | TRBrace | TLBrack | TRBrack | TColon | TComma | TString | TScalar

datatype lmode = LDefault | LAtom string | LStr | LEsc | LHex nat

definition is_ws :: "char \<Rightarrow> bool" where
  "is_ws c = (c = CHR 0x20 \<or> c = CHR 0x09 \<or> c = CHR 0x0A \<or> c = CHR 0x0D)"

definition is_digit :: "char \<Rightarrow> bool" where
  "is_digit c = rng CHR ''0'' CHR ''9'' c"

definition atom_char :: "char \<Rightarrow> bool" where
  "atom_char c = (is_digit c \<or> cls_lower c \<or> cls_upper c \<or> c = CHR ''+'' \<or> c = CHR ''-'' \<or> c = CHR ''.'')"

text \<open>\<^verbatim>\<open>[eE][+-]?[0-9]+\<close>, or nothing\<close>
definition valid_exp :: "string \<Rightarrow> bool" where
  "valid_exp r = (case r of [] \<Rightarrow> True
     | c # r' \<Rightarrow> (c = CHR ''e'' \<or> c = CHR ''E'') \<and>
         (let ds = (case r' of [] \<Rightarrow> [] | s # t \<Rightarrow> if s = CHR ''+'' \<or> s = CHR ''-'' then t else r')
          in ds \<noteq> [] \<and> list_all is_digit ds))"

text \<open>\<^verbatim>\<open>-?(0|[1-9][0-9]*)(\.[0-9]+)?([eE][+-]?[0-9]+)?\<close>\<close>
definition valid_number :: "string \<Rightarrow> bool" where
  "valid_number s =
     (let s1 = (case s of [] \<Rightarrow> [] | c # r \<Rightarrow> if c = CHR ''-'' then r else s);
          ip = takeWhile is_digit s1;
          r1 = dropWhile is_digit s1
      in ip \<noteq> [] \<and> (if hd ip = CHR ''0'' then length ip = 1 else True) \<and>
         (case r1 of [] \<Rightarrow> True
          | c # r2 \<Rightarrow> if c = CHR ''.''
              then takeWhile is_digit r2 \<noteq> [] \<and> valid_exp (dropWhile is_digit r2)
              else valid_exp r1))"

definition valid_atom :: "string \<Rightarrow> bool" where
  "valid_atom w = (w = ''true'' \<or> w = ''false'' \<or> w = ''null'' \<or> valid_number w)"

definition lex_default :: "char \<Rightarrow> (lmode \<times> token list) option" where
  "lex_default c =
     (if is_ws c then Some (LDefault, [])
      else if c = CHR ''{'' then Some (LDefault, [TLBrace])
      else if c = CHR ''}'' then Some (LDefault, [TRBrace])
      else if c = CHR ''['' then Some (LDefault, [TLBrack])
      else if c = CHR '']'' then Some (LDefault, [TRBrack])
      else if c = CHR '':'' then Some (LDefault, [TColon])
      else if c = CHR '','' then Some (LDefault, [TComma])
      else if c = dq then Some (LStr, [])
      else if atom_char c then Some (LAtom [c], [])
      else None)"

fun lex_step :: "lmode \<Rightarrow> char \<Rightarrow> (lmode \<times> token list) option" where
  "lex_step LDefault c = lex_default c"
| "lex_step (LAtom w) c =
     (if atom_char c then Some (LAtom (w @ [c]), [])
      else if valid_atom w
        then (case lex_default c of None \<Rightarrow> None | Some (m, ts) \<Rightarrow> Some (m, TScalar # ts))
      else None)"
| "lex_step LStr c =
     (if c = dq then Some (LDefault, [TString])
      else if c = bs then Some (LEsc, [])
      else if (of_char c :: nat) < 32 then None
      else Some (LStr, []))"
| "lex_step LEsc c =
     (if c = dq \<or> c = bs \<or> c = CHR ''/'' \<or> c = CHR ''b'' \<or> c = CHR ''f'' \<or> c = CHR ''n''
         \<or> c = CHR ''r'' \<or> c = CHR ''t'' then Some (LStr, [])
      else if c = CHR ''u'' then Some (LHex 4, [])
      else None)"
| "lex_step (LHex n) c =
     (if cls_hex c then (if n \<le> 1 then Some (LStr, []) else Some (LHex (n - 1), [])) else None)"

fun lex_run :: "lmode \<Rightarrow> string \<Rightarrow> (lmode \<times> token list) option" where
  "lex_run m [] = Some (m, [])"
| "lex_run m (c # cs) =
     (case lex_step m c of None \<Rightarrow> None
      | Some (m', ts) \<Rightarrow>
          (case lex_run m' cs of None \<Rightarrow> None | Some (m'', ts') \<Rightarrow> Some (m'', ts @ ts')))"

fun lex_end :: "lmode \<Rightarrow> token list option" where
  "lex_end LDefault = Some []"
| "lex_end (LAtom w) = (if valid_atom w then Some [TScalar] else None)"
| "lex_end m = None"

definition tokens :: "string \<Rightarrow> token list option" where
  "tokens s = (case lex_run LDefault s of None \<Rightarrow> None
     | Some (m, ts) \<Rightarrow> (case lex_end m of None \<Rightarrow> None | Some te \<Rightarrow> Some (ts @ te)))"

text \<open>
  The stack machine: the stack holds the open objects and arrays, the phase says what may
  come next.
\<close>

datatype ctx = CObj | CArr

datatype phase = PValue | PValueOrEnd | PKeyOrEnd | PKey | PColon | PAfter

fun value_start :: "ctx list \<Rightarrow> token \<Rightarrow> (phase \<times> ctx list) option" where
  "value_start st TString = Some (PAfter, st)"
| "value_start st TScalar = Some (PAfter, st)"
| "value_start st TLBrace = Some (PKeyOrEnd, CObj # st)"
| "value_start st TLBrack = Some (PValueOrEnd, CArr # st)"
| "value_start st t = None"

fun pda_step :: "phase \<times> ctx list \<Rightarrow> token \<Rightarrow> (phase \<times> ctx list) option" where
  "pda_step (PValue, st) t = value_start st t"
| "pda_step (PValueOrEnd, CArr # st) TRBrack = Some (PAfter, st)"
| "pda_step (PValueOrEnd, st) t = value_start st t"
| "pda_step (PKeyOrEnd, CObj # st) TRBrace = Some (PAfter, st)"
| "pda_step (PKeyOrEnd, st) TString = Some (PColon, st)"
| "pda_step (PKey, st) TString = Some (PColon, st)"
| "pda_step (PColon, st) TColon = Some (PValue, st)"
| "pda_step (PAfter, CObj # st) TComma = Some (PKey, CObj # st)"
| "pda_step (PAfter, CArr # st) TComma = Some (PValue, CArr # st)"
| "pda_step (PAfter, CObj # st) TRBrace = Some (PAfter, st)"
| "pda_step (PAfter, CArr # st) TRBrack = Some (PAfter, st)"
| "pda_step s t = None"

fun pda_run :: "phase \<times> ctx list \<Rightarrow> token list \<Rightarrow> (phase \<times> ctx list) option" where
  "pda_run s [] = Some s"
| "pda_run s (t # ts) = (case pda_step s t of None \<Rightarrow> None | Some s' \<Rightarrow> pda_run s' ts)"

text \<open>A valid JSON text, and a valid JSON text that is an object.\<close>
definition json_valid :: "string \<Rightarrow> bool" where
  "json_valid s = (case tokens s of None \<Rightarrow> False
     | Some ts \<Rightarrow> pda_run (PValue, []) ts = Some (PAfter, []))"

definition json_valid_object :: "string \<Rightarrow> bool" where
  "json_valid_object s = (json_valid s \<and>
     (case tokens s of Some (t # ts) \<Rightarrow> t = TLBrace | _ \<Rightarrow> False))"

section \<open>The Response Serializer\<close>

text \<open>
  A response is an object whose properties hold already serialized JSON texts; a property
  assigned from a missing entry of the snapshot holds \<^verbatim>\<open>undefined\<close> (\<open>None\<close>). Objects are
  association lists in property order: assignment keeps the place of an existing key and
  appends a new one.
\<close>

fun obj_set :: "'k \<Rightarrow> 'v \<Rightarrow> ('k \<times> 'v) list \<Rightarrow> ('k \<times> 'v) list" where
  "obj_set k v [] = [(k, v)]"
| "obj_set k v (kv # xs) = (if fst kv = k then (k, v) # xs else kv # obj_set k v xs)"

definition obj_del :: "'k \<Rightarrow> ('k \<times> 'v) list \<Rightarrow> ('k \<times> 'v) list" where
  "obj_del k xs = filter (\<lambda>kv. fst kv \<noteq> k) xs"

type_synonym response = "(string \<times> string option) list"

text \<open>What a template literal prints for a property value.\<close>
definition template :: "string option \<Rightarrow> string" where
  "template v = (case v of None \<Rightarrow> ''undefined'' | Some s \<Rightarrow> s)"

definition pair_text :: "string \<times> string option \<Rightarrow> string" where
  "pair_text kv = dq # fst kv @ [dq] @ '': '' @ template (snd kv)"

definition serializeResponse :: "response \<Rightarrow> string" where
  "serializeResponse response = ''{'' @ join '', '' (map pair_text response) @ ''}''"

text \<open>A key that needs no escaping inside a JSON string.\<close>
definition plain_key :: "string \<Rightarrow> bool" where
  "plain_key k = list_all (\<lambda>c. c \<noteq> dq \<and> c \<noteq> bs \<and> \<not> (of_char c :: nat) < 32) k"

definition valid_values :: "response \<Rightarrow> bool" where
  "valid_values r = list_all (\<lambda>kv. case snd kv of None \<Rightarrow> False | Some v \<Rightarrow> json_valid v) r"

definition plain_keys :: "response \<Rightarrow> bool" where
  "plain_keys r = list_all (\<lambda>kv. plain_key (fst kv)) r"

text \<open>The tokens of the members of a serialized response.\<close>
fun member_tokens :: "response \<Rightarrow> token list" where
  "member_tokens [] = []"
| "member_tokens [kv] = [TString, TColon] @ the (tokens (the (snd kv)))"
| "member_tokens (kv # kvs) = [TString, TColon] @ the (tokens (the (snd kv))) @ [TComma] @ member_tokens kvs"

section \<open>The shared snapshot\<close>

text \<open>
  Of the fields of \<^verbatim>\<open>WebsocketHandler\<close>, the message handler reads and writes
  \<^verbatim>\<open>socketData\<close> (property name to serialized value) and \<^verbatim>\<open>serializedInitData\<close>.
\<close>

record handler_state =
  socketData :: "(string \<times> string) list"
  serializedInitData :: string

text \<open>A new handler: \<^verbatim>\<open>socketData = {}\<close>, \<^verbatim>\<open>serializedInitData = '{}'\<close>.\<close>
definition initial_state :: handler_state where
  "initial_state = \<lparr>socketData = [], serializedInitData = ''{}''\<rparr>"

text \<open>
  The collaborators and the configuration, as the handler sees them while it processes one
  frame. \<open>getMempoolTransactionExtended\<close> is \<open>None\<close> where the awaited call throws.
\<close>

record env =
  getBlocks :: "json list"
  INITIAL_BLOCKS_AMOUNT :: nat
  MAX_TRACKED_ADDRESSES :: nat
  BACKEND :: string
  getDifficultyAdjustment :: json
  getMempoolInfo :: json
  getVBytesPerSecond :: json
  getLatestPrices :: json
  getMempoolBlocks :: json
  getLatestTransactions :: json
  getBackendInfo :: json
  getLoadingIndicators :: json
  getRecommendedFee :: json
  getHealthStatus :: json
  getReplacedBy :: "string \<Rightarrow> string option"
  getMempool :: "string \<Rightarrow> json option"
  getMempoolTransactionExtended :: "string \<Rightarrow> json option"
  getMempoolBlocksWithTransactions :: "json list"
  compressTx :: "json \<Rightarrow> json"
  getRbfTrees :: "bool \<Rightarrow> json"

text \<open>
  \<^verbatim>\<open>updateSocketDataFields\<close>: a property whose value is \<^verbatim>\<open>null\<close> or \<^verbatim>\<open>undefined\<close> is
  deleted, any other is stored serialized; then the snapshot is rendered anew.
\<close>

fun update_fields :: "(string \<times> json) list \<Rightarrow> (string \<times> string) list \<Rightarrow> (string \<times> string) list" where
  "update_fields [] sd = sd"
| "update_fields (pv # ds) sd =
     update_fields ds (if snd pv \<noteq> JNull then obj_set (fst pv) (stringify (snd pv)) sd
                       else obj_del (fst pv) sd)"

definition render :: "(string \<times> string) list \<Rightarrow> string" where
  "render sd = ''{'' @ join '', '' (map (\<lambda>kv. pair_text (fst kv, Some (snd kv))) sd) @ ''}''"

definition updateSocketDataFields :: "(string \<times> json) list \<Rightarrow> handler_state \<Rightarrow> handler_state" where
  "updateSocketDataFields data st =
     (let sd = update_fields data (socketData st)
      in st\<lparr>socketData := sd, serializedInitData := render sd\<rparr>)"

text \<open>\<^verbatim>\<open>xs.slice(-n)\<close>\<close>
definition slice_last :: "nat \<Rightarrow> 'a list \<Rightarrow> 'a list" where
  "slice_last n xs = (if n = 0 then xs else drop (length xs - n) xs)"

text \<open>\<^verbatim>\<open>da?.previousTime ? da : undefined\<close>\<close>
definition da_field :: "json \<Rightarrow> json" where
  "da_field da = (if truthy_opt (jget ''previousTime'' da) then da else JNull)"

definition updateSocketData :: "env \<Rightarrow> handler_state \<Rightarrow> handler_state" where
  "updateSocketData e st =
     (let blocks' = slice_last (INITIAL_BLOCKS_AMOUNT e) (getBlocks e);
          da = getDifficultyAdjustment e
      in updateSocketDataFields
        [(''mempoolInfo'', getMempoolInfo e),
         (''vBytesPerSecond'', getVBytesPerSecond e),
         (''blocks'', JArr blocks'),
         (''conversions'', getLatestPrices e),
         (''mempool-blocks'', getMempoolBlocks e),
         (''transactions'', getLatestTransactions e),
         (''backendInfo'', getBackendInfo e),
         (''loadingIndicators'', getLoadingIndicators e),
         (''da'', da_field da),
         (''fees'', getRecommendedFee e)] st)"

section \<open>The client session and the inbound frame\<close>

text \<open>
  The properties the handler attaches to the socket. A flag that was never set reads as
  false; a slot that was never set, or holds \<^verbatim>\<open>null\<close> or \<^verbatim>\<open>false\<close>, is \<open>None\<close>. The
  projected-block slot keeps \<^verbatim>\<open>undefined\<close> and \<^verbatim>\<open>null\<close> apart, since \<^verbatim>\<open>null >= 0\<close> holds.
\<close>

datatype mb_slot = MBUndefined | MBNull | MBIndex nat

record client =
  remoteAddress :: string
  want_blocks :: bool
  want_mempool_blocks :: bool
  want_live_2h_chart :: bool
  want_stats :: bool
  want_tomahawk :: bool
  wants :: bool
  track_tx :: "string option"
  track_mempool_tx :: "string option"
  track_address :: "json option"
  track_addresses :: "(string \<times> json) list option"
  track_scriptpubkeys :: "string list option"
  track_asset :: "string option"
  track_mempool_block :: mb_slot
  track_rbf :: "string option"
  track_rbf_summary :: bool
  track_donation :: "string option"
  track_bisq_market :: "string option"

text \<open>The session of a connection on which no frame has been processed.\<close>
definition new_client :: "string \<Rightarrow> client" where
  "new_client addr = \<lparr>remoteAddress = addr, want_blocks = False, want_mempool_blocks = False,
     want_live_2h_chart = False, want_stats = False, want_tomahawk = False, wants = False,
     track_tx = None, track_mempool_tx = None, track_address = None, track_addresses = None,
     track_scriptpubkeys = None, track_asset = None, track_mempool_block = MBUndefined,
     track_rbf = None, track_rbf_summary = False, track_donation = None,
     track_bisq_market = None\<rparr>"

text \<open>
  The parsed frame, with the types the handler's string and array operations give its
  properties. A property is \<open>None\<close> when it is absent (for \<open>data\<close>, \<open>track_addresses\<close> and
  \<open>track_scriptpubkeys\<close>: absent or not an array); the two flags are the truthiness of
  their properties. The \<^verbatim>\<open>track-address\<close> property and the entries of the
  \<^verbatim>\<open>track-addresses\<close> and \<^verbatim>\<open>track-scriptpubkeys\<close> arrays are any parsed values: the handler
  tests them with regular expressions, which convert them to strings, and then calls
  \<^verbatim>\<open>toLowerCase\<close> on them, which only a string has.
\<close>

record frame =
  action :: "string option"
  data :: "string list option"
  refresh_blocks :: bool
  f_track_tx :: "string option"
  watch_mempool :: bool
  f_track_address :: "json option"
  f_track_addresses :: "json list option"
  f_track_scriptpubkeys :: "json list option"
  f_track_asset :: "string option"
  f_track_mempool_block :: "json option"
  f_track_rbf :: "string option"
  f_track_rbf_summary :: "bool option"
  f_track_donation :: "string option"
  f_track_bisq_market :: "string option"

text \<open>The frame \<^verbatim>\<open>{}\<close>.\<close>
definition empty_frame :: frame where
  "empty_frame = \<lparr>action = None, data = None, refresh_blocks = False, f_track_tx = None,
     watch_mempool = False, f_track_address = None, f_track_addresses = None,
     f_track_scriptpubkeys = None, f_track_asset = None, f_track_mempool_block = None,
     f_track_rbf = None, f_track_rbf_summary = None, f_track_donation = None,
     f_track_bisq_market = None\<rparr>"

text \<open>A string property that is present and not the empty string.\<close>
definition truthy_str :: "string option \<Rightarrow> bool" where
  "truthy_str v = (case v of None \<Rightarrow> False | Some s \<Rightarrow> s \<noteq> [])"

section \<open>The Inbound Protocol Decoder\<close>

text \<open>The valid \<^verbatim>\<open>want\<close> subscriptions, and the flag \<^verbatim>\<open>client['want-' + sub]\<close>.\<close>
definition wantable :: "string list" where
  "wantable = [''blocks'', ''mempool-blocks'', ''live-2h-chart'', ''stats'', ''tomahawk'']"

definition get_want :: "string \<Rightarrow> client \<Rightarrow> bool" where
  "get_want sub c =
     (if sub = ''blocks'' then want_blocks c
      else if sub = ''mempool-blocks'' then want_mempool_blocks c
      else if sub = ''live-2h-chart'' then want_live_2h_chart c
      else if sub = ''stats'' then want_stats c
      else if sub = ''tomahawk'' then want_tomahawk c
      else False)"

definition set_want :: "string \<Rightarrow> bool \<Rightarrow> client \<Rightarrow> client" where
  "set_want sub b c =
     (if sub = ''blocks'' then c\<lparr>want_blocks := b\<rparr>
      else if sub = ''mempool-blocks'' then c\<lparr>want_mempool_blocks := b\<rparr>
      else if sub = ''live-2h-chart'' then c\<lparr>want_live_2h_chart := b\<rparr>
      else if sub = ''stats'' then c\<lparr>want_stats := b\<rparr>
      else if sub = ''tomahawk'' then c\<lparr>want_tomahawk := b\<rparr>
      else c)"

text \<open>
  The loop over \<^verbatim>\<open>wantable\<close>: \<open>wn\<close> is \<^verbatim>\<open>wantNow\<close>, the keys of the classes this frame
  turns on.
\<close>
fun want_loop :: "string list \<Rightarrow> string list \<Rightarrow> client \<times> string list \<Rightarrow> client \<times> string list" where
  "want_loop [] d (c, wn) = (c, wn)"
| "want_loop (sub # subs) d (c, wn) =
     (let key = ''want-'' @ sub;
          wants = (sub \<in> set d);
          wn' = (if wants \<and> \<not> get_want sub c then wn @ [key] else wn)
      in want_loop subs d (set_want sub wants c, wn'))"

definition step_want :: "frame \<Rightarrow> client \<Rightarrow> client \<times> string list" where
  "step_want f c =
     (case data f of
        Some d \<Rightarrow>
          if action f = Some ''want''
          then (let (c', wn) = want_loop wantable d (c, []) in (c'\<lparr>wants := True\<rparr>, wn))
          else (c, [])
      | None \<Rightarrow> (c, []))"

text \<open>Initial data for the classes a frame turns on, read from the snapshot.\<close>
definition sd_get :: "handler_state \<Rightarrow> string \<Rightarrow> string option" where
  "sd_get st k = map_of (socketData st) k"

definition step_seed :: "env \<Rightarrow> handler_state \<Rightarrow> frame \<Rightarrow> string list \<Rightarrow> response \<Rightarrow> response" where
  "step_seed e st f wn r =
     (let r1 = (if ''want-blocks'' \<in> set wn \<or> refresh_blocks f
                then obj_set ''blocks'' (sd_get st ''blocks'') r else r);
          r2 = (if ''want-mempool-blocks'' \<in> set wn
                then obj_set ''mempool-blocks'' (sd_get st ''mempool-blocks'') r1 else r1);
          r3 = (if ''want-stats'' \<in> set wn
                then obj_set ''da'' (sd_get st ''da'')
                      (obj_set ''fees'' (sd_get st ''fees'')
                        (obj_set ''vBytesPerSecond'' (sd_get st ''vBytesPerSecond'')
                          (obj_set ''mempoolInfo'' (sd_get st ''mempoolInfo'') r2)))
                else r2)
      in if ''want-tomahawk'' \<in> set wn
         then obj_set ''tomahawk'' (Some (stringify (getHealthStatus e))) r3 else r3)"

text \<open>\<^verbatim>\<open>/^[a-fA-F0-9]{64}$/\<close>\<close>
definition re_hex64 :: "alt list" where
  "re_hex64 = [(True, [(cls_hex, 64, 64)], True)]"

text \<open>
  \<^verbatim>\<open>/^[a-fA-F0-9]+$/\<close> on the input \<open>s\<close>: \<^verbatim>\<open>+\<close> takes at least one character and never
  more than the input has.
\<close>
definition re_hex_plus :: "string \<Rightarrow> alt list" where
  "re_hex_plus s = [(True, [(cls_hex, 1, length s)], True)]"

text \<open>\<^verbatim>\<open>/^[a-z]{3}_[a-z]{3}$/\<close>\<close>
definition re_market :: "alt list" where
  "re_market = [(True, [(cls_lower, 3, 3), (lit CHR ''_'', 1, 1), (cls_lower, 3, 3)], True)]"

text \<open>
  \<^verbatim>\<open>txPosition\<close>: the position of the transaction, with \<^verbatim>\<open>accelerated\<close> added when the
  transaction is accelerated.
\<close>
definition spread :: "json option \<Rightarrow> (string \<times> json) list" where
  "spread v = (case v of Some (JObj kvs) \<Rightarrow> kvs | _ \<Rightarrow> [])"

definition tx_position :: "string \<Rightarrow> json \<Rightarrow> string" where
  "tx_position trackTxid tx =
     (let position = spread (jget ''position'' tx);
          position' = (if truthy_opt (jget ''acceleration'' tx)
                       then obj_set ''accelerated'' (the (jget ''acceleration'' tx)) position
                       else position)
      in stringify (JObj [(''txid'', JStr trackTxid), (''position'', JObj position')]))"

definition tx_txid :: "json \<Rightarrow> string" where
  "tx_txid tx = (case jget ''txid'' tx of Some (JStr s) \<Rightarrow> s | _ \<Rightarrow> [])"

definition watch_lookup :: "env \<Rightarrow> string \<Rightarrow> client \<times> response \<Rightarrow> client \<times> response" where
  "watch_lookup e trackTxid cr =
     (case cr of (c, r) \<Rightarrow>
       (case getMempool e trackTxid of
          Some tx \<Rightarrow>
            if BACKEND e = ''esplora'' then (c, obj_set ''tx'' (Some (stringify tx)) r)
            else (case getMempoolTransactionExtended e (tx_txid tx) of
                    Some fullTx \<Rightarrow> (c, obj_set ''tx'' (Some (stringify fullTx)) r)
                  | None \<Rightarrow> (c, r))
        | None \<Rightarrow>
            (case getMempoolTransactionExtended e trackTxid of
               Some fullTx \<Rightarrow> (c, obj_set ''tx'' (Some (stringify fullTx)) r)
             | None \<Rightarrow> (c\<lparr>track_mempool_tx := Some trackTxid\<rparr>, r))))"

definition watch_mempool_tx :: "env \<Rightarrow> string \<Rightarrow> client \<times> response \<Rightarrow> client \<times> response" where
  "watch_mempool_tx e trackTxid cr =
     (case cr of (c, r) \<Rightarrow>
        if truthy_str (getReplacedBy e trackTxid)
        then (c\<lparr>track_tx := None\<rparr>,
              obj_set ''txReplaced''
                (Some (stringify (JObj [(''txid'', JStr (the (getReplacedBy e trackTxid)))]))) r)
        else watch_lookup e trackTxid (c, r))"

definition step_track_tx :: "env \<Rightarrow> frame \<Rightarrow> client \<times> response \<Rightarrow> client \<times> response" where
  "step_track_tx e f cr =
     (case cr of (c, r) \<Rightarrow>
       if truthy_str (f_track_tx f) then
         (let t = the (f_track_tx f) in
          if re_test re_hex64 t then
            (let (c1, r1) = (if watch_mempool f then watch_mempool_tx e t (c\<lparr>track_tx := Some t\<rparr>, r)
                             else (c\<lparr>track_tx := Some t\<rparr>, r))
             in (case getMempool e t of
                   Some tx \<Rightarrow>
                     if truthy_opt (jget ''position'' tx)
                     then (c1, obj_set ''txPosition'' (Some (tx_position t tx)) r1)
                     else (c1, r1)
                 | None \<Rightarrow> (c1, r1)))
          else (c\<lparr>track_tx := None\<rparr>, r))
       else (c, r))"

text \<open>
  \<^verbatim>\<open>testAddress\<close> as the handler calls it, on any parsed value. Every pattern is tested on
  the string the value converts to; \<^verbatim>\<open>address.toLowerCase()\<close> throws unless the value is a
  string; the last branch returns the value itself. The result is the exception, or the
  returned value with \<open>None\<close> for \<^verbatim>\<open>false\<close>. On a string it is \<open>testAddress\<close>.
\<close>
definition testAddress_value :: "json \<Rightarrow> error + json option" where
  "testAddress_value address =
     (if re_test re_address (js_string address) then
        (case (if re_test re_tolower (js_string address)
               then (case address of JStr s \<Rightarrow> Inr (JStr (toLowerCase s)) | _ \<Rightarrow> Inl TypeError)
               else Inr address) of
           Inl err \<Rightarrow> Inl err
         | Inr address' \<Rightarrow>
             if re_test re_uncompressed (js_string address')
             then Inr (Some (JStr (''41'' @ js_string address' @ ''ac'')))
             else if re_test re_compressed (js_string address')
             then Inr (Some (JStr (''21'' @ js_string address' @ ''ac'')))
             else Inr (Some address'))
      else Inr None)"

text \<open>
  The steps that call \<^verbatim>\<open>testAddress\<close> or \<^verbatim>\<open>toLowerCase\<close> return \<open>Inl\<close> when the call throws;
  nothing has been assigned by the step then.
\<close>
definition step_track_address :: "frame \<Rightarrow> client \<Rightarrow> error + client" where
  "step_track_address f c =
     (if truthy_opt (f_track_address f)
      then (case testAddress_value (the (f_track_address f)) of
              Inl err \<Rightarrow> Inl err
            | Inr validAddress \<Rightarrow>
                Inr (if truthy_opt validAddress then c\<lparr>track_address := validAddress\<rparr>
                     else c\<lparr>track_address := None\<rparr>))
      else Inr c)"

text \<open>
  The loop that fills \<^verbatim>\<open>addressMap\<close>: the raw entry, converted to a string as a property
  key, is mapped to the value \<^verbatim>\<open>testAddress\<close> returns for it.
\<close>
fun address_map :: "json list \<Rightarrow> (string \<times> json) list \<Rightarrow> error + (string \<times> json) list" where
  "address_map [] m = Inr m"
| "address_map (address # as) m =
     (case testAddress_value address of
        Inl err \<Rightarrow> Inl err
      | Inr validAddress \<Rightarrow>
          address_map as (if truthy_opt validAddress
                          then obj_set (js_string address) (the validAddress) m else m))"

definition addresses_error :: "nat \<Rightarrow> string" where
  "addresses_error n = [dq] @ ''too many addresses requested, this connection supports tracking a maximum of ''
      @ show_nat n @ '' addresses'' @ [dq]"

definition step_track_addresses :: "env \<Rightarrow> frame \<Rightarrow> client \<times> response \<Rightarrow> error + client \<times> response" where
  "step_track_addresses e f cr =
     (case cr of (c, r) \<Rightarrow>
       (case f_track_addresses f of
          None \<Rightarrow> Inr (c, r)
        | Some addresses \<Rightarrow>
            (case address_map addresses [] of
               Inl err \<Rightarrow> Inl err
             | Inr addressMap \<Rightarrow>
                 if length addressMap > MAX_TRACKED_ADDRESSES e
                 then Inr (c\<lparr>track_addresses := None\<rparr>,
                       obj_set ''track-addresses-error'' (Some (addresses_error (MAX_TRACKED_ADDRESSES e))) r)
                 else if length addressMap > 0 then Inr (c\<lparr>track_addresses := Some addressMap\<rparr>, r)
                 else Inr (c\<lparr>track_addresses := None\<rparr>, r))))"

text \<open>
  The loop that fills \<^verbatim>\<open>spks\<close>: the pattern is tested on the string the entry converts to,
  and \<^verbatim>\<open>spk.toLowerCase()\<close> throws unless the entry is a string.
\<close>
fun spk_list :: "json list \<Rightarrow> string list \<Rightarrow> error + string list" where
  "spk_list [] spks = Inr spks"
| "spk_list (spk # rest) spks =
     (if re_test (re_hex_plus (js_string spk)) (js_string spk)
      then (case spk of JStr s \<Rightarrow> spk_list rest (spks @ [toLowerCase s]) | _ \<Rightarrow> Inl TypeError)
      else spk_list rest spks)"

definition scriptpubkeys_error :: "nat \<Rightarrow> string" where
  "scriptpubkeys_error n = [dq] @ ''too many scriptpubkeys requested, this connection supports tracking a maximum of ''
      @ show_nat n @ '' scriptpubkeys'' @ [dq]"

definition step_track_scriptpubkeys :: "env \<Rightarrow> frame \<Rightarrow> client \<times> response \<Rightarrow> error + client \<times> response" where
  "step_track_scriptpubkeys e f cr =
     (case cr of (c, r) \<Rightarrow>
       (case f_track_scriptpubkeys f of
          None \<Rightarrow> Inr (c, r)
        | Some xs \<Rightarrow>
            (case spk_list xs [] of
               Inl err \<Rightarrow> Inl err
             | Inr spks \<Rightarrow>
                 if length spks > MAX_TRACKED_ADDRESSES e
                 then Inr (c\<lparr>track_scriptpubkeys := None\<rparr>,
                       obj_set ''track-scriptpubkeys-error''
                         (Some (scriptpubkeys_error (MAX_TRACKED_ADDRESSES e))) r)
                 else if length spks \<noteq> 0 then Inr (c\<lparr>track_scriptpubkeys := Some spks\<rparr>, r)
                 else Inr (c\<lparr>track_scriptpubkeys := None\<rparr>, r))))"

definition step_track_asset :: "frame \<Rightarrow> client \<Rightarrow> client" where
  "step_track_asset f c =
     (if truthy_str (f_track_asset f)
      then (if re_test re_hex64 (the (f_track_asset f)) then c\<lparr>track_asset := f_track_asset f\<rparr>
            else c\<lparr>track_asset := None\<rparr>)
      else c)"

text \<open>\<^verbatim>\<open>(mBlocksWithTransactions[index]?.transactions || []).map(mempoolBlocks.compressTx)\<close>\<close>
definition block_transactions :: "json list \<Rightarrow> nat \<Rightarrow> json list" where
  "block_transactions mBlocks i =
     (if i < length mBlocks
      then (case jget ''transactions'' (mBlocks ! i) of Some (JArr txs) \<Rightarrow> txs | _ \<Rightarrow> [])
      else [])"

definition projected_full :: "env \<Rightarrow> nat \<Rightarrow> json list \<Rightarrow> json" where
  "projected_full e i txs =
     JObj [(''index'', JNum (int i)), (''blockTransactions'', JArr (map (compressTx e) txs))]"

definition step_track_mempool_block :: "env \<Rightarrow> frame \<Rightarrow> client \<times> response \<Rightarrow> client \<times> response" where
  "step_track_mempool_block e f cr =
     (case cr of (c, r) \<Rightarrow>
       (case f_track_mempool_block f of
          None \<Rightarrow> (c, r)
        | Some v \<Rightarrow>
            (case v of
               JNum n \<Rightarrow>
                 if n \<ge> 0
                 then (c\<lparr>track_mempool_block := MBIndex (nat n)\<rparr>,
                       obj_set ''projected-block-transactions''
                         (Some (stringify (projected_full e (nat n)
                            (block_transactions (getMempoolBlocksWithTransactions e) (nat n))))) r)
                 else (c\<lparr>track_mempool_block := MBNull\<rparr>, r)
             | _ \<Rightarrow> (c\<lparr>track_mempool_block := MBNull\<rparr>, r))))"

definition step_track_rbf :: "env \<Rightarrow> frame \<Rightarrow> client \<times> response \<Rightarrow> client \<times> response" where
  "step_track_rbf e f cr =
     (case cr of (c, r) \<Rightarrow>
       (case f_track_rbf f of
          None \<Rightarrow> (c, r)
        | Some v \<Rightarrow>
            if v \<in> set [''all'', ''fullRbf'']
            then (c\<lparr>track_rbf := Some v\<rparr>,
                  obj_set ''rbfLatest'' (Some (stringify (getRbfTrees e (v = ''fullRbf'')))) r)
            else (c\<lparr>track_rbf := None\<rparr>, r)))"

definition step_track_rbf_summary :: "handler_state \<Rightarrow> frame \<Rightarrow> client \<times> response \<Rightarrow> client \<times> response" where
  "step_track_rbf_summary st f cr =
     (case cr of (c, r) \<Rightarrow>
       (case f_track_rbf_summary f of
          None \<Rightarrow> (c, r)
        | Some b \<Rightarrow>
            if b
            then (c\<lparr>track_rbf_summary := True\<rparr>,
                  (case sd_get st ''rbfSummary'' of
                     Some s \<Rightarrow> obj_set ''rbfLatestSummary'' (Some s) r
                   | None \<Rightarrow> r))
            else (c\<lparr>track_rbf_summary := False\<rparr>, r)))"

text \<open>
  \<^verbatim>\<open>action: 'init'\<close>. The snapshot entries are strings: \<^verbatim>\<open>socketData['blocks']?.length\<close>
  is the length of the serialized text, and an entry is falsy when it is missing or the
  empty string. The result is the state, whether the handler goes on (it returns early
  otherwise), and what it sends.
\<close>
definition step_init :: "env \<Rightarrow> handler_state \<Rightarrow> handler_state \<times> bool \<times> string list" where
  "step_init e st =
     (let st' = (if \<not> truthy_str (sd_get st ''blocks'') \<or> \<not> truthy_str (sd_get st ''da'')
                    \<or> \<not> truthy_str (sd_get st ''backendInfo'') \<or> \<not> truthy_str (sd_get st ''conversions'')
                 then updateSocketData e st else st)
      in if \<not> truthy_str (sd_get st' ''blocks'') then (st', False, [])
         else (st', True, [serializedInitData st']))"

definition step_donation :: "frame \<Rightarrow> client \<Rightarrow> client" where
  "step_donation f c =
     (if truthy_str (f_track_donation f) \<and> length (the (f_track_donation f)) = 22
      then c\<lparr>track_donation := f_track_donation f\<rparr> else c)"

definition step_bisq_market :: "frame \<Rightarrow> client \<Rightarrow> client" where
  "step_bisq_market f c =
     (if truthy_str (f_track_bisq_market f)
      then (if re_test re_market (the (f_track_bisq_market f))
            then c\<lparr>track_bisq_market := f_track_bisq_market f\<rparr>
            else c\<lparr>track_bisq_market := None\<rparr>)
      else c)"

text \<open>
  What processing one message does: the session and the handler state afterwards, the
  frames sent to the client in order, and whether the connection was closed.
\<close>
record outcome =
  o_client :: client
  o_state :: handler_state
  o_sent :: "string list"
  o_closed :: bool

text \<open>
  The \<^verbatim>\<open>message\<close> listener on a parsed message; \<open>None\<close> is the message \<^verbatim>\<open>null\<close>, on which
  \<^verbatim>\<open>parsedMessage.action\<close> throws. An exception is caught at the end of the listener, which
  closes the connection: what has been assigned to the session before stays, the response
  object is dropped and nothing is sent.

  \<open>tracked\<close> is the listener up to the end of the tracking properties: \<open>Inr\<close> the session and
  the response object then, or \<open>Inl\<close> the session at the moment of an exception.
\<close>
definition tracked :: "env \<Rightarrow> handler_state \<Rightarrow> frame \<Rightarrow> client \<Rightarrow> client + client \<times> response" where
  "tracked e st f c =
     (let (c1, wantNow) = step_want f c;
          r1 = step_seed e st f wantNow [];
          (c2, r2) = step_track_tx e f (c1, r1)
      in case step_track_address f c2 of
           Inl err \<Rightarrow> Inl c2
         | Inr c3 \<Rightarrow>
             (case step_track_addresses e f (c3, r2) of
                Inl err \<Rightarrow> Inl c3
              | Inr (c4, r4) \<Rightarrow>
                  (case step_track_scriptpubkeys e f (c4, r4) of
                     Inl err \<Rightarrow> Inl c4
                   | Inr (c5, r5) \<Rightarrow>
                       (let c6 = step_track_asset f c5;
                            (c7, r7) = step_track_mempool_block e f (c6, r5);
                            (c8, r8) = step_track_rbf e f (c7, r7)
                        in Inr (step_track_rbf_summary st f (c8, r8))))))"

text \<open>
  The response object at the end of the listener, with \<^verbatim>\<open>pong\<close> for a ping; after an
  exception there is nothing to send.
\<close>
definition response_of :: "env \<Rightarrow> handler_state \<Rightarrow> frame \<Rightarrow> client \<Rightarrow> response" where
  "response_of e st f c =
     (case tracked e st f c of
        Inl c' \<Rightarrow> []
      | Inr (c9, r9) \<Rightarrow>
          if action f = Some ''ping'' then obj_set ''pong'' (Some (stringify (JBool True))) r9 else r9)"

definition handle_message :: "env \<Rightarrow> handler_state \<Rightarrow> client \<Rightarrow> frame option \<Rightarrow> outcome" where
  "handle_message e st c msg =
     (case msg of
        None \<Rightarrow> \<lparr>o_client = c, o_state = st, o_sent = [], o_closed = True\<rparr>
      | Some f \<Rightarrow>
          (case tracked e st f c of
             Inl c' \<Rightarrow> \<lparr>o_client = c', o_state = st, o_sent = [], o_closed = True\<rparr>
           | Inr (c9, r9) \<Rightarrow>
               (let (st', continue, sent) = (if action f = Some ''init'' then step_init e st else (st, True, []))
                in if \<not> continue then \<lparr>o_client = c9, o_state = st', o_sent = sent, o_closed = False\<rparr>
                   else
                     (let r10 = response_of e st f c;
                          c10 = step_bisq_market f (step_donation f c9)
                      in \<lparr>o_client = c10, o_state = st',
                           o_sent = sent @ (if r10 \<noteq> [] then [serializeResponse r10] else []),
                           o_closed = False\<rparr>))))"


text \<open>A sample environment: no block is known yet and no difficulty adjustment.\<close>
definition env0 :: env where
  "env0 = \<lparr>getBlocks = [], INITIAL_BLOCKS_AMOUNT = 8, MAX_TRACKED_ADDRESSES = 1,
     BACKEND = ''esplora'', getDifficultyAdjustment = JNull,
     getMempoolInfo = JObj [(''size'', JNum 5000)], getVBytesPerSecond = JNum 0,
     getLatestPrices = JObj [(''USD'', JNum 1)], getMempoolBlocks = JArr [],
     getLatestTransactions = JArr [], getBackendInfo = JObj [(''hostname'', JStr ''node'')],
     getLoadingIndicators = JObj [], getRecommendedFee = JObj [(''fastestFee'', JNum 1)],
     getHealthStatus = JArr [], getReplacedBy = (\<lambda>t. None), getMempool = (\<lambda>t. None),
     getMempoolTransactionExtended = (\<lambda>t. None), getMempoolBlocksWithTransactions = [],
     compressTx = (\<lambda>t. t), getRbfTrees = (\<lambda>b. JArr [])\<rparr>"

text \<open>Frames with a single purpose.\<close>
definition init_frame :: frame where
  "init_frame = empty_frame\<lparr>action := Some ''init''\<rparr>"

definition want_frame :: "string list \<Rightarrow> frame" where
  "want_frame d = empty_frame\<lparr>action := Some ''want'', data := Some d\<rparr>"








text \<open>
  A handler state that is reached: the snapshot after the first \<^verbatim>\<open>init\<close> frame in the
  sample environment.
\<close>
definition state0 :: handler_state where
  "state0 = o_state (handle_message env0 initial_state (new_client ''peer'') (Some init_frame))"

section \<open>Fan-out of a mempool delta: spent outputs of tracked transactions\<close>

text \<open>The fields of a new transaction that the outspend index reads.\<close>
record vin =
  vin_txid :: string
  vin_vout :: nat

record mtx =
  mtx_txid :: string
  mtx_vin :: "vin list"

text \<open>
  \<^verbatim>\<open>outspendCache\<close>: source txid to (output index to (input index, spender txid)). The
  inner object has integer keys, which an object enumerates in ascending order.
\<close>
type_synonym outspends = "(nat \<times> nat \<times> string) list"

fun int_set :: "nat \<Rightarrow> 'v \<Rightarrow> (nat \<times> 'v) list \<Rightarrow> (nat \<times> 'v) list" where
  "int_set k v [] = [(k, v)]"
| "int_set k v (kv # xs) =
     (if fst kv = k then (k, v) # xs
      else if k < fst kv then (k, v) # kv # xs
      else kv # int_set k v xs)"

text \<open>The set \<^verbatim>\<open>trackedTxs\<close>, over all clients of the server.\<close>
definition trackedTxs :: "client list \<Rightarrow> string list" where
  "trackedTxs clients =
     concat (map (\<lambda>c. if truthy_str (track_tx c) then [the (track_tx c)] else []) clients)"

text \<open>
  The body of the loop over the inputs of a new transaction: input \<open>i\<close> of the spender
  \<open>txid\<close> is recorded when it spends a tracked transaction.
\<close>
definition outspend_one :: "string list \<Rightarrow> string \<Rightarrow> nat \<Rightarrow> vin
    \<Rightarrow> (string \<times> outspends) list \<Rightarrow> (string \<times> outspends) list" where
  "outspend_one tr txid i v oc =
     (if vin_txid v \<in> set tr
        then (case map_of oc (vin_txid v) of
                None \<Rightarrow> obj_set (vin_txid v) [(vin_vout v, (i, txid))] oc
              | Some m \<Rightarrow> obj_set (vin_txid v) (int_set (vin_vout v) (i, txid) m) oc)
        else oc)"

text \<open>The loop over the inputs of one new transaction, \<open>i\<close> the index of the next input.\<close>
fun outspend_vins :: "string list \<Rightarrow> string \<Rightarrow> nat \<Rightarrow> vin list
    \<Rightarrow> (string \<times> outspends) list \<Rightarrow> (string \<times> outspends) list" where
  "outspend_vins tr txid i [] oc = oc"
| "outspend_vins tr txid i (v # vs) oc = outspend_vins tr txid (Suc i) vs (outspend_one tr txid i v oc)"

fun outspend_txs :: "string list \<Rightarrow> mtx list \<Rightarrow> (string \<times> outspends) list
    \<Rightarrow> (string \<times> outspends) list" where
  "outspend_txs tr [] oc = oc"
| "outspend_txs tr (tx # txs) oc =
     outspend_txs tr txs (outspend_vins tr (mtx_txid tx) 0 (mtx_vin tx) oc)"

definition outspendCache :: "client list \<Rightarrow> mtx list \<Rightarrow> (string \<times> outspends) list" where
  "outspendCache clients newTransactions =
     (let tr = trackedTxs clients
      in if length tr > 0 then outspend_txs tr newTransactions [] else [])"

definition outspends_json :: "outspends \<Rightarrow> json" where
  "outspends_json m =
     JObj (map (\<lambda>kv. (show_nat (fst kv),
                       JObj [(''vin'', JNum (int (fst (snd kv)))), (''txid'', JStr (snd (snd kv)))])) m)"

text \<open>
  \<^verbatim>\<open>response['utxoSpent']\<close> in the loop over the open clients: \<open>None\<close> when the property
  is not set.
\<close>
definition utxoSpent :: "(string \<times> outspends) list \<Rightarrow> client \<Rightarrow> string option" where
  "utxoSpent oc c =
     (if truthy_str (track_tx c)
      then (case map_of oc (the (track_tx c)) of
              Some m \<Rightarrow> if length m > 0 then Some (stringify (outspends_json m)) else None
            | None \<Rightarrow> None)
      else None)"

text \<open>Output \<open>v\<close> of transaction \<open>t\<close> is spent by an input in the list.\<close>
definition spends :: "string \<Rightarrow> nat \<Rightarrow> vin list \<Rightarrow> bool" where
  "spends t v vs = list_ex (\<lambda>x. vin_txid x = t \<and> vin_vout x = v) vs"

text \<open>\<^verbatim>\<open>outspendCache[t][v]\<close>\<close>
definition oc_lookup :: "(string \<times> outspends) list \<Rightarrow> string \<Rightarrow> nat \<Rightarrow> (nat \<times> string) option" where
  "oc_lookup oc t v = (case map_of oc t of None \<Rightarrow> None | Some m \<Rightarrow> map_of m v)"

text \<open>
  The entry \<open>e\<close> (input index, spender txid) records an input of a new transaction that
  spends output \<open>v\<close> of \<open>t\<close>.
\<close>
definition is_spend :: "mtx list \<Rightarrow> string \<Rightarrow> nat \<Rightarrow> nat \<times> string \<Rightarrow> bool" where
  "is_spend txs t v e = list_ex (\<lambda>b. mtx_txid b = snd e \<and> fst e < length (mtx_vin b)
      \<and> vin_txid (mtx_vin b ! fst e) = t \<and> vin_vout (mtx_vin b ! fst e) = v) txs"

text \<open>Reading a decimal text back, to tell the keys of two outputs apart.\<close>
definition digit_val :: "char \<Rightarrow> nat" where
  "digit_val c = of_char c - 48"

definition read_nat :: "string \<Rightarrow> nat" where
  "read_nat s = foldl (\<lambda>acc c. acc * 10 + digit_val c) 0 s"

section \<open>Fan-out of a new block: the projected block a client tracks\<close>

text \<open>
  The per-event cache of serialized responses, seeded with a copy of \<^verbatim>\<open>socketData\<close>.
\<close>
definition getCachedResponse :: "string \<Rightarrow> json \<Rightarrow> (string \<times> string) list \<Rightarrow> string \<times> (string \<times> string) list" where
  "getCachedResponse key d cache =
     (if truthy_str (map_of cache key) then (the (map_of cache key), cache)
      else (stringify d, obj_set key (stringify d) cache))"

text \<open>What the block handler has read from the mempool and the template builder.\<close>
record projection =
  isInSync :: bool
  mBlockDeltas :: "json list"
  mBlocksWithTransactions :: "json list"
  p_compressTx :: "json \<Rightarrow> json"

text \<open>\<^verbatim>\<open>mBlocksWithTransactions[index]?.transactions\<close>, when it is an array.\<close>
definition transactions_at :: "json list \<Rightarrow> nat \<Rightarrow> json list option" where
  "transactions_at mBlocks i =
     (if i < length mBlocks
      then (case jget ''transactions'' (mBlocks ! i) of Some (JArr txs) \<Rightarrow> Some txs | _ \<Rightarrow> None)
      else None)"

text \<open>\<^verbatim>\<open>mBlockDeltas[index].added\<close>, when it is an array; reading its length throws otherwise.\<close>
definition delta_added :: "json \<Rightarrow> json list option" where
  "delta_added d = (case jget ''added'' d of Some (JArr xs) \<Rightarrow> Some xs | _ \<Rightarrow> None)"

definition full_key :: "nat \<Rightarrow> string" where
  "full_key i = ''projected-block-transactions-full-'' @ show_nat i"

definition delta_key :: "nat \<Rightarrow> string" where
  "delta_key i = ''projected-block-transactions-delta-'' @ show_nat i"

definition full_payload :: "projection \<Rightarrow> nat \<Rightarrow> json list \<Rightarrow> json" where
  "full_payload p i txs =
     JObj [(''index'', JNum (int i)), (''blockTransactions'', JArr (map (p_compressTx p) txs))]"

definition delta_payload :: "nat \<Rightarrow> json \<Rightarrow> json" where
  "delta_payload i d = JObj [(''index'', JNum (int i)), (''delta'', d)]"

text \<open>
  \<^verbatim>\<open>response['projected-block-transactions']\<close> for one open client of \<^verbatim>\<open>handleNewBlock\<close>
  (\<open>None\<close> when the property is not set) and the cache afterwards.
\<close>
definition newblock_projected :: "projection \<Rightarrow> (string \<times> string) list \<Rightarrow> client
    \<Rightarrow> error + (string option \<times> (string \<times> string) list)" where
  "newblock_projected p cache c =
     (case track_mempool_block c of
        MBUndefined \<Rightarrow> Inr (None, cache)
      | MBNull \<Rightarrow> Inr (None, cache)
      | MBIndex i \<Rightarrow>
          if \<not> isInSync p then Inr (None, cache)
          else if i < length (mBlockDeltas p) \<and> truthy (mBlockDeltas p ! i)
                  \<and> (case transactions_at (mBlocksWithTransactions p) i of
                        None \<Rightarrow> False | Some txs \<Rightarrow> length txs \<noteq> 0)
          then (case delta_added (mBlockDeltas p ! i) of
                  None \<Rightarrow> Inl TypeError
                | Some added \<Rightarrow>
                    (let txs = the (transactions_at (mBlocksWithTransactions p) i)
                     in if real (length added) > real (length txs) / 2
                        then (let (s, cache') = getCachedResponse (full_key i) (full_payload p i txs) cache
                              in Inr (Some s, cache'))
                        else (let (s, cache') = getCachedResponse (delta_key i)
                                                   (delta_payload i (mBlockDeltas p ! i)) cache
                              in Inr (Some s, cache'))))
          else Inr (None, cache))"

text \<open>The cache holds nothing foreign under the keys of projected block \<open>i\<close>.\<close>
definition cache_clean :: "projection \<Rightarrow> nat \<Rightarrow> (string \<times> string) list \<Rightarrow> bool" where
  "cache_clean p i cache =
     ((case map_of cache (full_key i) of None \<Rightarrow> True
       | Some s \<Rightarrow> (case transactions_at (mBlocksWithTransactions p) i of
                      None \<Rightarrow> False | Some txs \<Rightarrow> s = stringify (full_payload p i txs))) \<and>
      (case map_of cache (delta_key i) of None \<Rightarrow> True
       | Some s \<Rightarrow> i < length (mBlockDeltas p) \<and> s = stringify (delta_payload i (mBlockDeltas p ! i))))"

text \<open>A sample projection: one projected block, its delta adding \<open>added\<close>.\<close>
definition proj0 :: "json list \<Rightarrow> json list \<Rightarrow> projection" where
  "proj0 added txs = \<lparr>isInSync = True,
     mBlockDeltas = [JObj [(''added'', JArr added), (''removed'', JArr [JStr ''ab'']), (''changed'', JArr [])]],
     mBlocksWithTransactions = [JObj [(''transactions'', JArr txs)]],
     p_compressTx = (\<lambda>t. t)\<rparr>"

section \<open>Properties of the address validator\<close>

subsection \<open>Character classes\<close>

lemma rng_nat: "rng lo hi c = (of_char lo \<le> (of_char c :: nat) \<and> of_char c \<le> (of_char hi :: nat))"
  by (simp add: rng_def less_eq_char_def)

lemma lower_char_nat:
  "(of_char (lower_char c) :: nat) = (if 65 \<le> (of_char c :: nat) \<and> of_char c \<le> (90::nat) then of_char c + 32 else of_char c)"
  by (simp add: lower_char_def rng_nat)

lemma char_eq_nat: "(c = d) = ((of_char c :: nat) = of_char d)"
  by simp

lemma upper_lower: "cls_upper c \<Longrightarrow> cls_lower (lower_char c)"
  by (simp add: cls_upper_def cls_lower_def rng_nat lower_char_nat)

lemma BECH32_lower: "cls_BECH32 c \<Longrightarrow> cls_bech32 (lower_char c)"
  unfolding cls_BECH32_def cls_bech32_def rng_nat char_eq_nat[of _ "CHR ''A''"] char_eq_nat[of _ "CHR ''a''"] char_eq_nat[of _ "CHR ''0''"] lower_char_nat
  by (simp split: if_splits) arith

lemma hex_lower: "cls_hex c \<Longrightarrow> cls_hex (lower_char c)"
  unfolding cls_hex_def rng_nat lower_char_nat
  by (simp split: if_splits) arith

lemma lower_char_digit: "rng CHR ''0'' CHR ''9'' d \<Longrightarrow> (lower_char c = d) = (c = d)"
  unfolding rng_nat char_eq_nat[of _ d] lower_char_nat
  by (auto split: if_splits) 

lemma lower_fix: "\<not> cls_upper c \<Longrightarrow> lower_char c = c"
  by (simp add: lower_char_def cls_upper_def)

lemma lower_not_upper: "cls_lower c \<Longrightarrow> \<not> cls_upper c"
  by (simp add: cls_upper_def cls_lower_def rng_nat)

lemma bech32_not_upper: "cls_bech32 c \<Longrightarrow> \<not> cls_upper c"
  unfolding cls_bech32_def cls_upper_def rng_nat char_eq_nat[of _ "CHR ''a''"] char_eq_nat[of _ "CHR ''0''"]
  by simp arith

lemma base58_not_0: "cls_base58 c \<Longrightarrow> c \<noteq> CHR ''0''"
  unfolding cls_base58_def rng_nat char_eq_nat[of _ "CHR ''0''"]
  by simp arith

lemma upper_not_1: "cls_upper c \<Longrightarrow> c \<noteq> CHR ''1''"
  unfolding cls_upper_def rng_nat char_eq_nat[of _ "CHR ''1''"] by simp

lemma lower_not_1: "cls_lower c \<Longrightarrow> c \<noteq> CHR ''1''"
  unfolding cls_lower_def rng_nat char_eq_nat[of _ "CHR ''1''"] by simp

lemma upper_not_0: "cls_upper c \<Longrightarrow> c \<noteq> CHR ''0''"
  unfolding cls_upper_def rng_nat char_eq_nat[of _ "CHR ''0''"] by simp

lemma lower_not_0: "cls_lower c \<Longrightarrow> c \<noteq> CHR ''0''"
  unfolding cls_lower_def rng_nat char_eq_nat[of _ "CHR ''0''"] by simp

subsection \<open>match_seq\<close>

lemma le_takeWhile: "k \<le> length (takeWhile c s) \<longleftrightarrow> k \<le> length s \<and> list_all c (take k s)"
proof (induction s arbitrary: k)
  case Nil then show ?case by simp
next
  case (Cons a s) then show ?case by (cases k) auto
qed

lemma match_seq_Cons:
  "r \<in> set (match_seq ((c, lo, hi) # its) s) \<longleftrightarrow>
     (\<exists>p t. s = p @ t \<and> list_all c p \<and> lo \<le> length p \<and> length p \<le> hi \<and> r \<in> set (match_seq its t))"
proof
  assume "r \<in> set (match_seq ((c, lo, hi) # its) s)"
  then obtain k where k: "lo \<le> k" "k \<le> hi" "k \<le> length (takeWhile c s)" "r \<in> set (match_seq its (drop k s))"
    by (auto simp del: upt_Suc)
  from k(3) have "k \<le> length s" "list_all c (take k s)" by (simp_all add: le_takeWhile)
  with k show "\<exists>p t. s = p @ t \<and> list_all c p \<and> lo \<le> length p \<and> length p \<le> hi \<and> r \<in> set (match_seq its t)"
    by (intro exI[of _ "take k s"] exI[of _ "drop k s"]) simp
next
  assume "\<exists>p t. s = p @ t \<and> list_all c p \<and> lo \<le> length p \<and> length p \<le> hi \<and> r \<in> set (match_seq its t)"
  then obtain p t where pt: "s = p @ t" "list_all c p" "lo \<le> length p" "length p \<le> hi" "r \<in> set (match_seq its t)"
    by blast
  have "length p \<le> length (takeWhile c s)" using pt(1,2) by (simp add: le_takeWhile)
  with pt show "r \<in> set (match_seq ((c, lo, hi) # its) s)"
    by (auto simp del: upt_Suc intro!: bexI[of _ "length p"])
qed

lemma match_seq_Nil: "r \<in> set (match_seq [] s) \<longleftrightarrow> r = s"
  by auto

lemma list_all_lit1: "list_all (lit a) p \<and> 1 \<le> length p \<and> length p \<le> 1 \<longleftrightarrow> p = [a]"
  by (cases p) (auto simp: lit_def)

declare match_seq.simps [simp del]

lemma full1: "[] \<in> set (match_seq [(c, lo, hi)] s) \<longleftrightarrow> list_all c s \<and> lo \<le> length s \<and> length s \<le> hi"
  by (auto simp: match_seq_Cons match_seq_Nil)

lemma match3: "r \<in> set (match_seq [(c1, lo1, hi1), (lit a, 1, 1), (c3, lo3, hi3)] s) \<longleftrightarrow>
   (\<exists>h b. s = h @ a # b @ r \<and> list_all c1 h \<and> lo1 \<le> length h \<and> length h \<le> hi1
       \<and> list_all c3 b \<and> lo3 \<le> length b \<and> length b \<le> hi3)" (is "?L = ?R")
proof
  assume ?L
  then obtain h t where h: "s = h @ t" "list_all c1 h" "lo1 \<le> length h" "length h \<le> hi1"
      and t: "r \<in> set (match_seq [(lit a, 1, 1), (c3, lo3, hi3)] t)"
    unfolding match_seq_Cons by blast
  from t obtain p u where p: "t = p @ u" "list_all (lit a) p \<and> 1 \<le> length p \<and> length p \<le> 1"
      and u: "r \<in> set (match_seq [(c3, lo3, hi3)] u)"
    unfolding match_seq_Cons by blast
  from p(2) have pa: "p = [a]" by (simp only: list_all_lit1)
  from u obtain b where b: "u = b @ r" "list_all c3 b" "lo3 \<le> length b" "length b \<le> hi3"
    unfolding match_seq_Cons match_seq_Nil by blast
  show ?R using h p(1) pa b by auto
next
  assume ?R
  then obtain h b where hb: "s = h @ a # b @ r" "list_all c1 h" "lo1 \<le> length h" "length h \<le> hi1"
      "list_all c3 b" "lo3 \<le> length b" "length b \<le> hi3" by blast
  have 1: "r \<in> set (match_seq [(c3, lo3, hi3)] (b @ r))"
    unfolding match_seq_Cons match_seq_Nil using hb by blast
  have 2: "r \<in> set (match_seq [(lit a, 1, 1), (c3, lo3, hi3)] (a # b @ r))"
    unfolding match_seq_Cons[of r "lit a"] using 1 by (intro exI[of _ "[a]"] exI[of _ "b @ r"]) (simp add: lit_def)
  show ?L unfolding match_seq_Cons[of r c1] using 2 hb by blast
qed

lemma match_lit2: "r \<in> set (match_seq [(lit a, 1, 1), (lit b, 1, 1), (c3, n, n)] s) \<longleftrightarrow>
   (\<exists>k. s = a # b # k @ r \<and> list_all c3 k \<and> length k = n)"
proof -
  have "list_all (lit a) h \<and> 1 \<le> length h \<and> length h \<le> 1 \<longleftrightarrow> h = [a]" for h
    by (rule list_all_lit1)
  then have *: "(list_all (lit a) h \<and> 1 \<le> length h \<and> length h \<le> 1 \<and> P) \<longleftrightarrow> (h = [a] \<and> P)" for h P
    by blast
  show ?thesis
    unfolding match3 by (auto simp: * simp del: One_nat_def)
qed

subsection \<open>The patterns and the address shapes\<close>

lemma alt_full: "alt_test (True, its, True) s = ([] \<in> set (match_seq its s))"
  unfolding alt_test_def list_ex_iff by auto

lemma alt_prefix: "alt_test (True, its, False) s = (\<exists>r. r \<in> set (match_seq its s))"
  by (auto simp add: alt_test_def list_ex_iff)

lemma set_starts: "set (starts s) = {drop i s | i. i \<le> length s}"
  by (auto simp: starts_def simp del: upt_Suc)

lemma alt_float: "alt_test (False, its, False) s = (\<exists>i\<le>length s. \<exists>r. r \<in> set (match_seq its (drop i s)))"
  by (auto simp add: alt_test_def list_ex_iff set_starts)

lemma alt_suffix: "alt_test (False, its, True) s = (\<exists>i\<le>length s. [] \<in> set (match_seq its (drop i s)))"
  by (auto simp add: alt_test_def list_ex_iff set_starts)

lemma hrp_decomp: "length (hrp_of s) < length s \<Longrightarrow> s = hrp_of s @ CHR ''1'' # body_of s"
proof -
  assume a: "length (hrp_of s) < length s"
  let ?P = "\<lambda>c. c \<noteq> CHR ''1''"
  have id: "s = hrp_of s @ dropWhile ?P s"
    unfolding hrp_of_def by simp
  have d: "dropWhile ?P s \<noteq> []"
  proof
    assume "dropWhile ?P s = []"
    with id have "s = hrp_of s" by simp
    with a show False by simp
  qed
  then have "\<not> ?P (hd (dropWhile ?P s))" by (rule hd_dropWhile)
  then obtain t where t: "dropWhile ?P s = CHR ''1'' # t" using d by (cases "dropWhile ?P s") auto
  have s: "s = hrp_of s @ CHR ''1'' # t"
    using id t by simp
  have "drop (Suc (length (hrp_of s))) (hrp_of s @ CHR ''1'' # t) = t" by simp
  then have "body_of s = t" unfolding body_of_def using s by simp
  with s show ?thesis by simp
qed

lemma hrp_unique:
  assumes "list_all (\<lambda>c. c \<noteq> CHR ''1'') h"
  shows "hrp_of (h @ CHR ''1'' # t) = h" and "body_of (h @ CHR ''1'' # t) = t"
proof -
  show h: "hrp_of (h @ CHR ''1'' # t) = h"
    using assms unfolding hrp_of_def by (simp add: takeWhile_append2 list_all_iff)
  show "body_of (h @ CHR ''1'' # t) = t"
    unfolding body_of_def h by simp
qed

lemma all_upper_not_1: "list_all cls_upper h \<Longrightarrow> list_all (\<lambda>c. c \<noteq> CHR ''1'') h"
  by (auto simp: list_all_iff dest: upper_not_1)

lemma all_lower_not_1: "list_all cls_lower h \<Longrightarrow> list_all (\<lambda>c. c \<noteq> CHR ''1'') h"
  by (auto simp: list_all_iff dest: lower_not_1)

lemma full_bech32: "[] \<in> set (match_seq seq_bech32 s) \<longleftrightarrow> is_bech32 s"
proof
  assume "[] \<in> set (match_seq seq_bech32 s)"
  then obtain h b where hb: "s = h @ CHR ''1'' # b" "list_all cls_lower h" "2 \<le> length h" "length h \<le> 5"
      "list_all cls_bech32 b" "8 \<le> length b" "length b \<le> 100"
    unfolding seq_bech32_def match3 by auto
  have "hrp_of s = h" "body_of s = b"
    using hrp_unique[OF all_lower_not_1[OF hb(2)], of b] hb(1) by simp_all
  then show "is_bech32 s" using hb by (simp add: is_bech32_def)
next
  assume a: "is_bech32 s"
  then have "s = hrp_of s @ CHR ''1'' # body_of s" by (simp add: is_bech32_def hrp_decomp)
  then show "[] \<in> set (match_seq seq_bech32 s)"
    unfolding seq_bech32_def match3 using a by (auto simp: is_bech32_def)
qed

lemma full_BECH32: "[] \<in> set (match_seq seq_BECH32 s) \<longleftrightarrow> is_BECH32 s"
proof
  assume "[] \<in> set (match_seq seq_BECH32 s)"
  then obtain h b where hb: "s = h @ CHR ''1'' # b" "list_all cls_upper h" "2 \<le> length h" "length h \<le> 5"
      "list_all cls_BECH32 b" "8 \<le> length b" "length b \<le> 100"
    unfolding seq_BECH32_def match3 by auto
  have "hrp_of s = h" "body_of s = b"
    using hrp_unique[OF all_upper_not_1[OF hb(2)], of b] hb(1) by simp_all
  then show "is_BECH32 s" using hb by (simp add: is_BECH32_def)
next
  assume a: "is_BECH32 s"
  then have "s = hrp_of s @ CHR ''1'' # body_of s" by (simp add: is_BECH32_def hrp_decomp)
  then show "[] \<in> set (match_seq seq_BECH32 s)"
    unfolding seq_BECH32_def match3 using a by (auto simp: is_BECH32_def)
qed

lemma prefix_BECH32: "(\<exists>r. r \<in> set (match_seq seq_BECH32 s)) \<longleftrightarrow> BECH32_prefixed s"
proof
  assume "\<exists>r. r \<in> set (match_seq seq_BECH32 s)"
  then obtain r h b where hb: "s = h @ CHR ''1'' # b @ r" "list_all cls_upper h" "2 \<le> length h" "length h \<le> 5"
      "list_all cls_BECH32 b" "8 \<le> length b" "length b \<le> 100"
    unfolding seq_BECH32_def match3 by auto
  have hr: "hrp_of s = h" "body_of s = b @ r"
    using hrp_unique[OF all_upper_not_1[OF hb(2)], of "b @ r"] hb(1) by simp_all
  have "length b \<le> length (takeWhile cls_BECH32 (b @ r))"
    using hb(5) by (simp add: le_takeWhile)
  then show "BECH32_prefixed s" using hb hr by (simp add: BECH32_prefixed_def)
next
  assume a: "BECH32_prefixed s"
  then have s: "s = hrp_of s @ CHR ''1'' # body_of s" by (simp add: BECH32_prefixed_def hrp_decomp)
  let ?b = "take 8 (body_of s)"
  from a have 8: "8 \<le> length (takeWhile cls_BECH32 (body_of s))" by (simp add: BECH32_prefixed_def)
  then have b: "8 \<le> length (body_of s)" "list_all cls_BECH32 ?b" by (simp_all add: le_takeWhile)
  have s': "s = hrp_of s @ CHR ''1'' # ?b @ drop 8 (body_of s)" using s by simp
  have "\<exists>h b. s = h @ CHR ''1'' # b @ drop 8 (body_of s) \<and> list_all cls_upper h \<and> 2 \<le> length h \<and> length h \<le> 5
       \<and> list_all cls_BECH32 b \<and> 8 \<le> length b \<and> length b \<le> 100"
    apply (rule exI[of _ "hrp_of s"])
    apply (rule exI[of _ ?b])
    using a b s' by (simp add: BECH32_prefixed_def)
  then have "drop 8 (body_of s) \<in> set (match_seq seq_BECH32 s)"
    unfolding seq_BECH32_def match3 .
  then show "\<exists>r. r \<in> set (match_seq seq_BECH32 s)" ..
qed

lemma full_04: "[] \<in> set (match_seq seq_p2pk_04 s) \<longleftrightarrow> is_uncompressed s"
  unfolding seq_p2pk_04_def match_lit2 is_uncompressed_def
  by (cases s; cases "tl s") auto

lemma full_02: "[] \<in> set (match_seq seq_p2pk_02 s) \<longleftrightarrow> length s = 66 \<and> take 2 s = ''02'' \<and> list_all cls_hex (drop 2 s)"
  unfolding seq_p2pk_02_def match_lit2
  by (cases s; cases "tl s") auto

lemma full_03: "[] \<in> set (match_seq seq_p2pk_03 s) \<longleftrightarrow> length s = 66 \<and> take 2 s = ''03'' \<and> list_all cls_hex (drop 2 s)"
  unfolding seq_p2pk_03_def match_lit2
  by (cases s; cases "tl s") auto

lemma re_address_iff:
  "re_test re_address s \<longleftrightarrow> is_legacy s \<or> is_bech32 s \<or> is_BECH32 s \<or> is_uncompressed s \<or> is_compressed s"
  unfolding re_test_def re_address_def
  by (simp only: list_ex_Nil_iff list_ex_Cons_iff alt_full full_bech32 full_BECH32 full_04 full_02 full_03
        seq_legacy_def seq_legacy80_def full1 is_legacy_def is_compressed_def) auto

lemma re_uncompressed_iff: "re_test re_uncompressed s \<longleftrightarrow> is_uncompressed s"
  unfolding re_test_def re_uncompressed_def by (simp add: alt_full full_04)

lemma re_compressed_iff: "re_test re_compressed s \<longleftrightarrow> is_compressed s"
  unfolding re_test_def re_compressed_def by (auto simp add: alt_full full_02 full_03 is_compressed_def)

lemma p2pk_has_0: "r \<in> set (match_seq [(lit CHR ''0'', 1, 1), (lit b, 1, 1), (c, n, n)] (drop i s)) \<Longrightarrow> CHR ''0'' \<in> set s"
  unfolding match_lit2 by (metis in_set_dropD list.set_intros(1))

lemma re_tolower_cases: "re_test re_tolower s \<Longrightarrow> BECH32_prefixed s \<or> CHR ''0'' \<in> set s"
  unfolding re_test_def re_tolower_def
  by (auto simp add: alt_prefix alt_float alt_suffix prefix_BECH32 seq_p2pk_04_def seq_p2pk_02_def seq_p2pk_03_def
      dest: p2pk_has_0 simp del: One_nat_def)

lemma re_tolower_BECH32: "is_BECH32 s \<Longrightarrow> re_test re_tolower s"
  unfolding re_test_def re_tolower_def using full_BECH32[of s]
  by (auto simp add: alt_prefix)

lemma re_tolower_04: "is_uncompressed s \<Longrightarrow> re_test re_tolower s"
  unfolding re_test_def re_tolower_def using full_04[of s]
  by (auto simp add: alt_float intro!: exI[of _ 0])

lemma re_tolower_02: "is_compressed s \<Longrightarrow> re_test re_tolower s"
  unfolding re_test_def re_tolower_def using full_02[of s] full_03[of s]
  by (auto simp add: alt_suffix is_compressed_def intro!: exI[of _ 0])

subsection \<open>testAddress on each shape\<close>

lemma lower_char_0: "lower_char CHR ''0'' = CHR ''0''" "lower_char CHR ''2'' = CHR ''2''"
   "lower_char CHR ''3'' = CHR ''3''" "lower_char CHR ''4'' = CHR ''4''"
  by (simp_all add: lower_char_def rng_nat)

lemma toLowerCase_length: "length (toLowerCase s) = length s"
  by (simp add: toLowerCase_def)

lemma uncompressed_lower: "is_uncompressed s \<Longrightarrow> is_uncompressed (toLowerCase s)"
  unfolding is_uncompressed_def toLowerCase_def
  by (auto simp: take_map drop_map list_all_iff lower_char_0 hex_lower)

lemma compressed_lower: "is_compressed s \<Longrightarrow> is_compressed (toLowerCase s)"
  unfolding is_compressed_def toLowerCase_def
  by (auto simp: take_map drop_map list_all_iff lower_char_0 hex_lower)

lemma uncompressed_hd: "is_uncompressed s \<Longrightarrow> \<exists>t. s = CHR ''0'' # t"
  unfolding is_uncompressed_def by (cases s) auto

lemma compressed_hd: "is_compressed s \<Longrightarrow> \<exists>t. s = CHR ''0'' # t"
  unfolding is_compressed_def by (cases s) auto

lemma BECH32_hd: "is_BECH32 s \<Longrightarrow> \<exists>c t. s = c # t \<and> cls_upper c"
proof -
  assume a: "is_BECH32 s"
  then have s: "s = hrp_of s @ CHR ''1'' # body_of s" by (simp add: is_BECH32_def hrp_decomp)
  from a obtain c h where h: "hrp_of s = c # h" "cls_upper c"
    unfolding is_BECH32_def by (cases "hrp_of s") auto
  with s have "s = c # (h @ CHR ''1'' # body_of s)" by simp
  with h show ?thesis by blast
qed

lemma bech32_hd: "is_bech32 s \<Longrightarrow> \<exists>c t. s = c # t \<and> cls_lower c"
proof -
  assume a: "is_bech32 s"
  then have s: "s = hrp_of s @ CHR ''1'' # body_of s" by (simp add: is_bech32_def hrp_decomp)
  from a obtain c h where h: "hrp_of s = c # h" "cls_lower c"
    unfolding is_bech32_def by (cases "hrp_of s") auto
  with s have "s = c # (h @ CHR ''1'' # body_of s)" by simp
  with h show ?thesis by blast
qed

lemma testAddress_BECH32: "is_BECH32 s \<Longrightarrow> testAddress s = Some (toLowerCase s)"
proof -
  assume a: "is_BECH32 s"
  then obtain c t where ct: "s = c # t" "cls_upper c" using BECH32_hd by blast
  then have "toLowerCase s = lower_char c # toLowerCase t" "lower_char c \<noteq> CHR ''0''"
    using upper_lower[of c] lower_not_0 by (auto simp: toLowerCase_def)
  then have "\<not> is_uncompressed (toLowerCase s)" "\<not> is_compressed (toLowerCase s)"
    using uncompressed_hd[of "toLowerCase s"] compressed_hd[of "toLowerCase s"] by auto
  then show ?thesis
    using a by (simp add: testAddress_def re_address_iff re_tolower_BECH32 re_uncompressed_iff re_compressed_iff)
qed

lemma testAddress_uncompressed: "is_uncompressed s \<Longrightarrow> testAddress s = Some (''41'' @ toLowerCase s @ ''ac'')"
  by (simp add: testAddress_def re_address_iff re_tolower_04 re_uncompressed_iff uncompressed_lower)

lemma testAddress_compressed: "is_compressed s \<Longrightarrow> testAddress s = Some (''21'' @ toLowerCase s @ ''ac'')"
proof -
  assume a: "is_compressed s"
  then have "\<not> is_uncompressed (toLowerCase s)"
    by (simp add: is_compressed_def is_uncompressed_def toLowerCase_length)
  then show ?thesis using a
    by (simp add: testAddress_def re_address_iff re_tolower_02 re_uncompressed_iff re_compressed_iff compressed_lower)
qed

lemma bech32_lower_fix: "is_bech32 s \<Longrightarrow> toLowerCase s = s"
proof -
  assume a: "is_bech32 s"
  then have s: "s = hrp_of s @ CHR ''1'' # body_of s" by (simp add: is_bech32_def hrp_decomp)
  have 1: "lower_char CHR ''1'' = CHR ''1''" by (simp add: lower_char_def rng_nat)
  have 2: "map lower_char (hrp_of s) = hrp_of s"
    using a by (auto simp: is_bech32_def list_all_iff map_idI lower_fix lower_not_upper)
  have 3: "map lower_char (body_of s) = body_of s"
    using a by (auto simp: is_bech32_def list_all_iff map_idI lower_fix bech32_not_upper)
  have "toLowerCase (hrp_of s @ CHR ''1'' # body_of s) = hrp_of s @ CHR ''1'' # body_of s"
    by (simp add: toLowerCase_def 1 2 3)
  with s show ?thesis by simp
qed

lemma testAddress_bech32: "is_bech32 s \<Longrightarrow> testAddress s = Some s"
proof -
  assume a: "is_bech32 s"
  then obtain c t where ct: "s = c # t" "cls_lower c" using bech32_hd by blast
  then have "c \<noteq> CHR ''0''" using lower_not_0 by blast
  then have "\<not> is_uncompressed s" "\<not> is_compressed s"
    using uncompressed_hd[of s] compressed_hd[of s] ct by auto
  then show ?thesis
    using a by (simp add: testAddress_def re_address_iff bech32_lower_fix re_uncompressed_iff re_compressed_iff)
qed

lemma legacy_no_0: "is_legacy s \<Longrightarrow> CHR ''0'' \<notin> set s"
  by (auto simp: is_legacy_def list_all_iff dest: base58_not_0)

lemma testAddress_legacy: "is_legacy s \<Longrightarrow> \<not> BECH32_prefixed s \<Longrightarrow> testAddress s = Some s"
proof -
  assume a: "is_legacy s" and b: "\<not> BECH32_prefixed s"
  have 0: "CHR ''0'' \<notin> set s" using a by (rule legacy_no_0)
  then have "\<not> re_test re_tolower s" using b re_tolower_cases by blast
  moreover have "\<not> is_uncompressed s" "\<not> is_compressed s"
    using uncompressed_hd[of s] compressed_hd[of s] 0 by auto
  ultimately show ?thesis
    using a by (simp add: testAddress_def re_address_iff re_uncompressed_iff re_compressed_iff)
qed

lemma testAddress_reject:
  "\<not> (is_legacy s \<or> is_bech32 s \<or> is_BECH32 s \<or> is_uncompressed s \<or> is_compressed s) \<Longrightarrow> testAddress s = None"
  by (simp add: testAddress_def re_address_iff)

lemma testAddress_Some: "testAddress s = Some c \<Longrightarrow> is_legacy s \<or> is_bech32 s \<or> is_BECH32 s \<or> is_uncompressed s \<or> is_compressed s"
  by (simp add: testAddress_def re_address_iff split: if_splits)

lemma hrp_lower: "hrp_of (toLowerCase s) = toLowerCase (hrp_of s)"
proof -
  have "((\<lambda>c. c \<noteq> CHR ''1'') \<circ> lower_char) = (\<lambda>c. c \<noteq> CHR ''1'')"
    by (rule ext) (simp add: lower_char_digit rng_nat)
  then show ?thesis unfolding hrp_of_def toLowerCase_def by (simp add: takeWhile_map)
qed

lemma body_lower: "body_of (toLowerCase s) = toLowerCase (body_of s)"
  unfolding body_of_def hrp_lower unfolding toLowerCase_def by (simp add: drop_map)

lemma BECH32_to_bech32: "is_BECH32 s \<Longrightarrow> is_bech32 (toLowerCase s)"
  unfolding is_BECH32_def is_bech32_def hrp_lower body_lower
  by (auto simp: toLowerCase_def list_all_iff upper_lower BECH32_lower)

subsection \<open>Claims about the address validator\<close>

text \<open>
  C2 (amended). For every input string the address validator returns: the lowercased form
  for an uppercase bech32 string; the script \<^verbatim>\<open>41\<close>, the lowercased key, \<^verbatim>\<open>ac\<close> for an
  uncompressed public key (\<^verbatim>\<open>04\<close> and 128 hex digits); the script \<^verbatim>\<open>21\<close>, the lowercased
  key, \<^verbatim>\<open>ac\<close> for a compressed public key (\<^verbatim>\<open>02\<close> or \<^verbatim>\<open>03\<close> and 64 hex digits); the input
  unchanged for a lowercase bech32 string and for a legacy base58 string that does not
  begin like an uppercase bech32 string; and false (\<open>None\<close>) for a string of none of these
  shapes.
\<close>
theorem testAddress_shapes:
  "(is_BECH32 s \<longrightarrow> testAddress s = Some (toLowerCase s)) \<and>
   (is_uncompressed s \<longrightarrow> testAddress s = Some (''41'' @ toLowerCase s @ ''ac'')) \<and>
   (is_compressed s \<longrightarrow> testAddress s = Some (''21'' @ toLowerCase s @ ''ac'')) \<and>
   (is_bech32 s \<or> (is_legacy s \<and> \<not> is_BECH32 s \<and> \<not> BECH32_prefixed s) \<longrightarrow> testAddress s = Some s) \<and>
   (\<not> is_legacy s \<and> \<not> is_bech32 s \<and> \<not> is_BECH32 s \<and> \<not> is_uncompressed s \<and> \<not> is_compressed s
      \<longrightarrow> testAddress s = None)"
  using testAddress_BECH32[of s] testAddress_uncompressed[of s] testAddress_compressed[of s]
    testAddress_bech32[of s] testAddress_legacy[of s] testAddress_reject[of s]
  by blast

text \<open>The five cases of C2 at concrete inputs.\<close>
theorem testAddress_shapes_witness:
  "is_BECH32 ''BC1QW508D6QEJXTDG4Y5R3ZARVARY0C5XW7KV8F3T4''
   \<and> testAddress ''BC1QW508D6QEJXTDG4Y5R3ZARVARY0C5XW7KV8F3T4'' = Some ''bc1qw508d6qejxtdg4y5r3zarvary0c5xw7kv8f3t4''
   \<and> is_uncompressed (''04'' @ replicate 128 CHR ''A'')
   \<and> testAddress (''04'' @ replicate 128 CHR ''A'') = Some (''4104'' @ replicate 128 CHR ''a'' @ ''ac'')
   \<and> is_compressed (''03'' @ replicate 64 CHR ''b'')
   \<and> testAddress (''03'' @ replicate 64 CHR ''b'') = Some (''2103'' @ replicate 64 CHR ''b'' @ ''ac'')
   \<and> is_legacy ''1A1zP1eP5QGefi2DMPTfTL5SLmv7DivfNa''
   \<and> \<not> is_BECH32 ''1A1zP1eP5QGefi2DMPTfTL5SLmv7DivfNa''
   \<and> \<not> BECH32_prefixed ''1A1zP1eP5QGefi2DMPTfTL5SLmv7DivfNa''
   \<and> testAddress ''1A1zP1eP5QGefi2DMPTfTL5SLmv7DivfNa'' = Some ''1A1zP1eP5QGefi2DMPTfTL5SLmv7DivfNa''
   \<and> \<not> is_legacy ''hello'' \<and> \<not> is_bech32 ''hello'' \<and> \<not> is_BECH32 ''hello''
   \<and> \<not> is_uncompressed ''hello'' \<and> \<not> is_compressed ''hello''
   \<and> testAddress ''hello'' = None"
proof -
  have h1: "is_BECH32 ''BC1QW508D6QEJXTDG4Y5R3ZARVARY0C5XW7KV8F3T4''" by code_simp
  have l1: "toLowerCase ''BC1QW508D6QEJXTDG4Y5R3ZARVARY0C5XW7KV8F3T4'' = ''bc1qw508d6qejxtdg4y5r3zarvary0c5xw7kv8f3t4''"
    by code_simp
  have h2: "is_uncompressed (''04'' @ replicate 128 CHR ''A'')" by code_simp
  have l2: "''41'' @ toLowerCase (''04'' @ replicate 128 CHR ''A'') @ ''ac'' = ''4104'' @ replicate 128 CHR ''a'' @ ''ac''"
    by code_simp
  have h3: "is_compressed (''03'' @ replicate 64 CHR ''b'')" by code_simp
  have l3: "''21'' @ toLowerCase (''03'' @ replicate 64 CHR ''b'') @ ''ac'' = ''2103'' @ replicate 64 CHR ''b'' @ ''ac''"
    by code_simp
  have h4: "is_legacy ''1A1zP1eP5QGefi2DMPTfTL5SLmv7DivfNa''"
    "\<not> is_BECH32 ''1A1zP1eP5QGefi2DMPTfTL5SLmv7DivfNa''"
    "\<not> BECH32_prefixed ''1A1zP1eP5QGefi2DMPTfTL5SLmv7DivfNa''" by code_simp+
  have h5: "\<not> is_legacy ''hello''" "\<not> is_bech32 ''hello''" "\<not> is_BECH32 ''hello''"
    "\<not> is_uncompressed ''hello''" "\<not> is_compressed ''hello''" by code_simp+
  note r1 = testAddress_shapes[of "''BC1QW508D6QEJXTDG4Y5R3ZARVARY0C5XW7KV8F3T4''",
      THEN conjunct1, THEN mp, OF h1, unfolded l1]
  note r2 = testAddress_shapes[of "''04'' @ replicate 128 CHR ''A''",
      THEN conjunct2, THEN conjunct1, THEN mp, OF h2, unfolded l2]
  note r3 = testAddress_shapes[of "''03'' @ replicate 64 CHR ''b''",
      THEN conjunct2, THEN conjunct2, THEN conjunct1, THEN mp, OF h3, unfolded l3]
  note r4 = testAddress_shapes[of "''1A1zP1eP5QGefi2DMPTfTL5SLmv7DivfNa''",
      THEN conjunct2, THEN conjunct2, THEN conjunct2, THEN conjunct1, THEN mp,
      OF disjI2, OF conjI, OF h4(1) conjI, OF h4(2) h4(3)]
  note r5 = testAddress_shapes[of "''hello''",
      THEN conjunct2, THEN conjunct2, THEN conjunct2, THEN conjunct2, THEN mp,
      OF conjI, OF h5(1) conjI, OF h5(2) conjI, OF h5(3) conjI, OF h5(4) h5(5)]
  show ?thesis
    by (intro conjI) (fact h1 r1 h2 r2 h3 r3 h4 r4 h5 r5)+
qed

text \<open>
  C2 as stated fails: the key inside the script is lowercased, and a legacy base58 string
  that begins like an uppercase bech32 string is lowercased instead of returned unchanged.
\<close>
theorem testAddress_shapes_counterexample:
  "is_uncompressed (''04'' @ replicate 128 CHR ''A'')
   \<and> testAddress (''04'' @ replicate 128 CHR ''A'') \<noteq> Some (''41'' @ (''04'' @ replicate 128 CHR ''A'') @ ''ac'')
   \<and> is_legacy ''AB1CCCCCCCCLBBBBBBBBBBBBBB''
   \<and> \<not> is_BECH32 ''AB1CCCCCCCCLBBBBBBBBBBBBBB''
   \<and> \<not> is_uncompressed ''AB1CCCCCCCCLBBBBBBBBBBBBBB''
   \<and> \<not> is_compressed ''AB1CCCCCCCCLBBBBBBBBBBBBBB''
   \<and> testAddress ''AB1CCCCCCCCLBBBBBBBBBBBBBB'' \<noteq> Some ''AB1CCCCCCCCLBBBBBBBBBBBBBB''"
  by code_simp

text \<open>
  C3 (amended). The address validator is idempotent on the canonical form of an address:
  for every input that is not a public key, and that is not a legacy base58 string
  beginning like an uppercase bech32 string without being one, if the validator returns
  the canonical form \<open>c\<close> then it returns \<open>c\<close> again on \<open>c\<close>.
\<close>
theorem testAddress_idempotent:
  assumes "testAddress s = Some c"
    and "\<not> is_uncompressed s" and "\<not> is_compressed s"
    and "\<not> (is_legacy s \<and> BECH32_prefixed s \<and> \<not> is_BECH32 s)"
  shows "testAddress c = Some c"
proof (cases "is_BECH32 s")
  case True
  then have "c = toLowerCase s" using assms(1) by (simp add: testAddress_BECH32)
  then show ?thesis using True BECH32_to_bech32 testAddress_bech32 by blast
next
  case False
  show ?thesis
  proof (cases "is_bech32 s")
    case True
    then show ?thesis using assms(1) by (simp add: testAddress_bech32)
  next
    case nb: False
    from testAddress_Some[OF assms(1)] False nb assms(2,3) have l: "is_legacy s" by blast
    with assms(4) False have "\<not> BECH32_prefixed s" by blast
    with l show ?thesis using assms(1) by (simp add: testAddress_legacy)
  qed
qed

text \<open>C3 (amended) at an uppercase bech32 address.\<close>
theorem testAddress_idempotent_witness:
  "testAddress ''BC1QW508D6QEJXTDG4Y5R3ZARVARY0C5XW7KV8F3T4'' = Some ''bc1qw508d6qejxtdg4y5r3zarvary0c5xw7kv8f3t4''
   \<and> \<not> is_uncompressed ''BC1QW508D6QEJXTDG4Y5R3ZARVARY0C5XW7KV8F3T4''
   \<and> \<not> is_compressed ''BC1QW508D6QEJXTDG4Y5R3ZARVARY0C5XW7KV8F3T4''
   \<and> \<not> (is_legacy ''BC1QW508D6QEJXTDG4Y5R3ZARVARY0C5XW7KV8F3T4''
        \<and> BECH32_prefixed ''BC1QW508D6QEJXTDG4Y5R3ZARVARY0C5XW7KV8F3T4''
        \<and> \<not> is_BECH32 ''BC1QW508D6QEJXTDG4Y5R3ZARVARY0C5XW7KV8F3T4'')
   \<and> testAddress ''bc1qw508d6qejxtdg4y5r3zarvary0c5xw7kv8f3t4'' = Some ''bc1qw508d6qejxtdg4y5r3zarvary0c5xw7kv8f3t4''"
proof -
  have a: "testAddress ''BC1QW508D6QEJXTDG4Y5R3ZARVARY0C5XW7KV8F3T4'' = Some ''bc1qw508d6qejxtdg4y5r3zarvary0c5xw7kv8f3t4''"
    by code_simp
  have b: "\<not> is_uncompressed ''BC1QW508D6QEJXTDG4Y5R3ZARVARY0C5XW7KV8F3T4''"
    "\<not> is_compressed ''BC1QW508D6QEJXTDG4Y5R3ZARVARY0C5XW7KV8F3T4''"
    by code_simp+
  have c: "\<not> (is_legacy ''BC1QW508D6QEJXTDG4Y5R3ZARVARY0C5XW7KV8F3T4''
        \<and> BECH32_prefixed ''BC1QW508D6QEJXTDG4Y5R3ZARVARY0C5XW7KV8F3T4''
        \<and> \<not> is_BECH32 ''BC1QW508D6QEJXTDG4Y5R3ZARVARY0C5XW7KV8F3T4'')"
    by code_simp
  note r = testAddress_idempotent[OF a b c]
  show ?thesis
    by (intro conjI) (fact a b c r)+
qed

text \<open>
  C3 as stated fails on a public key: the script returned for it is rejected by the
  validator.
\<close>
theorem testAddress_idempotent_counterexample:
  "testAddress (''02'' @ replicate 64 CHR ''a'') = Some (''2102'' @ replicate 64 CHR ''a'' @ ''ac'')
   \<and> testAddress (''2102'' @ replicate 64 CHR ''a'' @ ''ac'') = None"
  by code_simp

section \<open>Properties of the Response Serializer\<close>

lemma lex_run_append:
  "lex_run m (a @ b) = (case lex_run m a of None \<Rightarrow> None
     | Some (m1, t1) \<Rightarrow> (case lex_run m1 b of None \<Rightarrow> None | Some (m2, t2) \<Rightarrow> Some (m2, t1 @ t2)))"
  by (induction a arbitrary: m) (auto split: option.splits)

lemma pda_run_append:
  "pda_run s (a @ b) = (case pda_run s a of None \<Rightarrow> None | Some s' \<Rightarrow> pda_run s' b)"
  by (induction a arbitrary: s) (auto split: option.splits)

lemma value_start_ext: "value_start st t = Some (ph', st') \<Longrightarrow> value_start (st @ b) t = Some (ph', st' @ b)"
  by (cases t) auto

lemma ctx_cases:
  obtains "st = []" | st' where "st = CObj # st'" | st' where "st = CArr # st'"
proof (cases st)
  case Nil then show ?thesis using that by blast
next
  case (Cons c cs) then show ?thesis using that by (cases c) auto
qed

lemma pda_step_ext:
  "pda_step (ph, st) t = Some (ph', st') \<Longrightarrow> pda_step (ph, st @ b) t = Some (ph', st' @ b)"
  by (cases ph; cases t; cases st rule: ctx_cases; cases b rule: ctx_cases) auto

lemma pda_run_ext:
  "pda_run (ph, st) ts = Some (ph', st') \<Longrightarrow> pda_run (ph, st @ b) ts = Some (ph', st' @ b)"
proof (induction ts arbitrary: ph st)
  case Nil then show ?case by simp
next
  case (Cons t ts)
  then obtain ph1 st1 where 1: "pda_step (ph, st) t = Some (ph1, st1)" "pda_run (ph1, st1) ts = Some (ph', st')"
    by (auto split: option.splits)
  from pda_step_ext[OF 1(1)] Cons.IH[OF 1(2)] show ?case by simp
qed

lemma lex_key: "plain_key k \<Longrightarrow> lex_run LStr (k @ [dq]) = Some (LDefault, [TString])"
  by (induction k) (auto simp: plain_key_def)

lemma lex_value_then:
  assumes "tokens v = Some tv" and "\<not> atom_char d" and "lex_default d = Some (LDefault, td)"
  shows "lex_run LDefault (v @ [d]) = Some (LDefault, tv @ td)"
proof -
  from assms(1) obtain m ts te where 1: "lex_run LDefault v = Some (m, ts)" "lex_end m = Some te" "tv = ts @ te"
    by (auto simp: tokens_def split: option.splits)
  have "lex_step m d = Some (LDefault, te @ td)"
    using 1(2) assms(2,3) by (cases m) (auto split: if_splits)
  then show ?thesis using 1 by (simp add: lex_run_append)
qed

lemma not_atom_delims: "\<not> atom_char CHR '',''" "\<not> atom_char CHR ''}''"
  by (simp_all add: atom_char_def is_digit_def cls_lower_def cls_upper_def rng_def)

lemma lex_default_delims: "lex_default CHR '','' = Some (LDefault, [TComma])"
    "lex_default CHR ''}'' = Some (LDefault, [TRBrace])"
    "lex_default CHR '' '' = Some (LDefault, [])"
    "lex_default CHR '':'' = Some (LDefault, [TColon])"
    "lex_default CHR ''{'' = Some (LDefault, [TLBrace])"
    "lex_default dq = Some (LStr, [])"
  by (simp_all add: lex_default_def is_ws_def dq_def)

lemma lex_run_seq:
  "lex_run m a = Some (m1, t1) \<Longrightarrow> lex_run m1 b = Some (m2, t2) \<Longrightarrow> lex_run m (a @ b) = Some (m2, t1 @ t2)"
  by (simp add: lex_run_append)

lemma lex_pair:
  assumes "plain_key k" and "tokens v = Some tv" and "\<not> atom_char d" and "lex_default d = Some (LDefault, td)"
  shows "lex_run LDefault (pair_text (k, Some v) @ [d]) = Some (LDefault, [TString, TColon] @ tv @ td)"
proof -
  have t: "pair_text (k, Some v) @ [d] = [dq] @ (k @ [dq]) @ '': '' @ (v @ [d])"
    by (simp add: pair_text_def template_def)
  have 1: "lex_run LDefault [dq] = Some (LStr, [])" by (simp add: lex_default_delims)
  have 3: "lex_run LDefault '': '' = Some (LDefault, [TColon])" by (simp add: lex_default_delims)
  note 2 = lex_key[OF assms(1)]
  note 4 = lex_value_then[OF assms(2,3,4)]
  from lex_run_seq[OF 1 lex_run_seq[OF 2 lex_run_seq[OF 3 4]]]
  show ?thesis unfolding t by simp
qed

lemma valid_values_Cons: "valid_values (kv # r) \<Longrightarrow> \<exists>v tv. snd kv = Some v \<and> tokens v = Some tv
    \<and> pda_run (PValue, []) tv = Some (PAfter, []) \<and> valid_values r"
  by (auto simp: valid_values_def json_valid_def split: option.splits)

lemma lex_members:
  "r \<noteq> [] \<Longrightarrow> valid_values r \<Longrightarrow> plain_keys r \<Longrightarrow>
   lex_run LDefault (join '', '' (map pair_text r) @ ''}'') = Some (LDefault, member_tokens r @ [TRBrace])"
proof (induction r rule: member_tokens.induct)
  case 1 then show ?case by simp
next
  case (2 kv)
  from valid_values_Cons[OF 2(2)] obtain v tv where v: "snd kv = Some v" "tokens v = Some tv" by blast
  then have kv: "kv = (fst kv, Some v)" by (cases kv) simp
  have k: "plain_key (fst kv)" using 2(3) by (simp add: plain_keys_def)
  from lex_pair[OF k v(2) not_atom_delims(2) lex_default_delims(2)] kv v
  show ?case by simp
next
  case (3 kv kv' kvs)
  from valid_values_Cons[OF 3(3)] obtain v tv where v: "snd kv = Some v" "tokens v = Some tv"
     and r: "valid_values (kv' # kvs)" by blast
  then have kv: "kv = (fst kv, Some v)" by (cases kv) simp
  have k: "plain_key (fst kv)" and ks: "plain_keys (kv' # kvs)" using 3(4) by (simp_all add: plain_keys_def)
  note a = lex_pair[OF k v(2) not_atom_delims(1) lex_default_delims(1)]
  have b: "lex_run LDefault '' '' = Some (LDefault, [])" by (simp add: lex_default_delims)
  note c = 3(1)[OF _ r ks, simplified]
  have t: "join '', '' (map pair_text (kv # kv' # kvs)) @ ''}''
      = (pair_text (fst kv, Some v) @ '','') @ '' '' @ (join '', '' (map pair_text (kv' # kvs)) @ ''}'')"
    using kv by simp
  from lex_run_seq[OF a lex_run_seq[OF b c]]
  show ?case unfolding t using v by simp
qed

lemma pda_value:
  "pda_run (PValue, []) tv = Some (PAfter, []) \<Longrightarrow> pda_run (PValue, st) tv = Some (PAfter, st)"
  using pda_run_ext[of PValue "[]" tv PAfter "[]" st] by simp

lemma pda_members:
  "r \<noteq> [] \<Longrightarrow> valid_values r \<Longrightarrow> ph = PKey \<or> ph = PKeyOrEnd \<Longrightarrow>
   pda_run (ph, CObj # st) (member_tokens r @ [TRBrace]) = Some (PAfter, st)"
proof (induction r arbitrary: ph rule: member_tokens.induct)
  case 1 then show ?case by simp
next
  case (2 kv)
  from valid_values_Cons[OF 2(2)] obtain v tv where v: "snd kv = Some v" "tokens v = Some tv"
     "pda_run (PValue, []) tv = Some (PAfter, [])" by blast
  from pda_value[OF v(3), of "CObj # st"] v 2(3) show ?case
    by (auto simp: pda_run_append)
next
  case (3 kv kv' kvs)
  from valid_values_Cons[OF 3(3)] obtain v tv where v: "snd kv = Some v" "tokens v = Some tv"
     "pda_run (PValue, []) tv = Some (PAfter, [])" and r: "valid_values (kv' # kvs)" by blast
  note c = 3(1)[OF _ r, of PKey, simplified]
  from pda_value[OF v(3), of "CObj # st"] v 3(4) c show ?case
    by (auto simp: pda_run_append)
qed

subsection \<open>Claims about the Response Serializer\<close>

text \<open>
  C5 (amended). For every non-empty response map whose values are all syntactically valid
  JSON texts and whose keys contain no double quote, backslash or control character, the
  Response Serializer returns \<^verbatim>\<open>{\<close>, the pairs \<^verbatim>\<open>"key": value\<close> joined by a comma and a
  space, and \<^verbatim>\<open>}\<close>, with every value verbatim, and this output is a syntactically valid
  JSON object.
\<close>
theorem serializeResponse_valid:
  assumes "response \<noteq> []" and "valid_values response" and "plain_keys response"
  shows "serializeResponse response
           = ''{'' @ join '', '' (map (\<lambda>kv. [dq] @ fst kv @ [dq] @ '': '' @ the (snd kv)) response) @ ''}''
         \<and> json_valid_object (serializeResponse response)"
proof
  have m: "map pair_text response = map (\<lambda>kv. [dq] @ fst kv @ [dq] @ '': '' @ the (snd kv)) response"
    using assms(2) by (auto simp: valid_values_def list_all_iff pair_text_def template_def split: option.splits)
  show "serializeResponse response
           = ''{'' @ join '', '' (map (\<lambda>kv. [dq] @ fst kv @ [dq] @ '': '' @ the (snd kv)) response) @ ''}''"
    by (simp only: serializeResponse_def m)
next
  have a: "lex_run LDefault ''{'' = Some (LDefault, [TLBrace])" by (simp add: lex_default_delims)
  from lex_run_seq[OF a lex_members[OF assms]]
  have "tokens (serializeResponse response) = Some (TLBrace # member_tokens response @ [TRBrace])"
    by (simp add: serializeResponse_def tokens_def)
  then show "json_valid_object (serializeResponse response)"
    using pda_members[OF assms(1,2), of PKeyOrEnd "[]"]
    by (simp add: json_valid_object_def json_valid_def)
qed

text \<open>C5 (amended) at the response to a ping.\<close>
theorem serializeResponse_valid_witness:
  "[(''pong'', Some ''true'')] \<noteq> [] \<and> valid_values [(''pong'', Some ''true'')]
   \<and> plain_keys [(''pong'', Some ''true'')]
   \<and> serializeResponse [(''pong'', Some ''true'')] = [CHR ''{'', dq] @ ''pong'' @ [dq] @ '': true}''
   \<and> json_valid_object (serializeResponse [(''pong'', Some ''true'')])"
proof -
  have a: "[(''pong'', Some ''true'')] \<noteq> ([] :: response)" by simp
  have b: "valid_values [(''pong'', Some ''true'')]" by code_simp
  have c: "plain_keys [(''pong'', Some ''true'')]" by code_simp
  have d: "''{'' @ join '', '' (map (\<lambda>kv. [dq] @ fst kv @ [dq] @ '': '' @ the (snd kv)) [(''pong'', Some ''true'')]) @ ''}''
       = [CHR ''{'', dq] @ ''pong'' @ [dq] @ '': true}''" by simp
  note r = serializeResponse_valid[OF a b c, unfolded d]
  show ?thesis
    by (intro conjI) (fact a b c r[THEN conjunct1] r[THEN conjunct2])+
qed

text \<open>
  C5 as stated fails when a key needs escaping: the key is printed between quotes as it
  is, here \<^verbatim>\<open>a"b\<close>.
\<close>
theorem serializeResponse_valid_counterexample:
  "[([CHR ''a'', dq, CHR ''b''], Some ''1'')] \<noteq> [] \<and> valid_values [([CHR ''a'', dq, CHR ''b''], Some ''1'')]
   \<and> \<not> json_valid_object (serializeResponse [([CHR ''a'', dq, CHR ''b''], Some ''1'')])"
  by code_simp

section \<open>Properties of the Inbound Protocol Decoder\<close>

subsection \<open>Objects as association lists\<close>

lemma map_of_obj_set: "map_of (obj_set k v xs) k' = (if k' = k then Some v else map_of xs k')"
  by (induction xs) auto

lemma map_of_obj_del: "map_of (obj_del k xs) k' = (if k' = k then None else map_of xs k')"
  by (induction xs) (auto simp: obj_del_def)

lemma obj_set_not_Nil: "obj_set k v xs \<noteq> []"
  by (cases xs) auto

lemma map_of_update_fields_other:
  "k \<notin> fst ` set ds \<Longrightarrow> map_of (update_fields ds sd) k = map_of sd k"
  by (induction ds arbitrary: sd) (auto simp: map_of_obj_set map_of_obj_del)

lemma map_of_update_fields_last:
  "k \<notin> fst ` set ds \<Longrightarrow> v \<noteq> JNull \<Longrightarrow>
   map_of (update_fields (pre @ (k, v) # ds) sd) k = Some (stringify v)"
  by (induction pre arbitrary: sd) (auto simp: map_of_update_fields_other map_of_obj_set)

lemma socketData_updateSocketDataFields:
  "socketData (updateSocketDataFields d st) = update_fields d (socketData st)"
  by (simp add: updateSocketDataFields_def Let_def)

lemma blocks_after_update: "sd_get (updateSocketData e st) ''blocks''
    = Some (stringify (JArr (slice_last (INITIAL_BLOCKS_AMOUNT e) (getBlocks e))))"
proof -
  let ?b = "JArr (slice_last (INITIAL_BLOCKS_AMOUNT e) (getBlocks e))"
  let ?post = "[(''conversions'', getLatestPrices e),
         (''mempool-blocks'', getMempoolBlocks e),
         (''transactions'', getLatestTransactions e),
         (''backendInfo'', getBackendInfo e),
         (''loadingIndicators'', getLoadingIndicators e),
         (''da'', da_field (getDifficultyAdjustment e)),
         (''fees'', getRecommendedFee e)]"
  let ?pre = "[(''mempoolInfo'', getMempoolInfo e), (''vBytesPerSecond'', getVBytesPerSecond e)]"
  have 1: "map_of (update_fields (?pre @ (''blocks'', ?b) # ?post) (socketData st)) ''blocks'' = Some (stringify ?b)"
    by (rule map_of_update_fields_last) simp_all
  have 2: "?pre @ (''blocks'', ?b) # ?post = [(''mempoolInfo'', getMempoolInfo e), (''vBytesPerSecond'', getVBytesPerSecond e),
         (''blocks'', ?b), (''conversions'', getLatestPrices e),
         (''mempool-blocks'', getMempoolBlocks e),
         (''transactions'', getLatestTransactions e),
         (''backendInfo'', getBackendInfo e),
         (''loadingIndicators'', getLoadingIndicators e),
         (''da'', da_field (getDifficultyAdjustment e)),
         (''fees'', getRecommendedFee e)]" by simp
  show ?thesis
    by (simp only: sd_get_def updateSocketData_def Let_def socketData_updateSocketDataFields 1[unfolded 2])
qed

lemma stringify_arr_truthy: "truthy_str (Some (stringify (JArr xs)))"
  by (simp add: truthy_str_def)

lemma step_init_continues: "\<exists>st'. step_init e st = (st', True, [serializedInitData st'])"
proof (cases "\<not> truthy_str (sd_get st ''blocks'') \<or> \<not> truthy_str (sd_get st ''da'')
                    \<or> \<not> truthy_str (sd_get st ''backendInfo'') \<or> \<not> truthy_str (sd_get st ''conversions'')")
  case True
  then show ?thesis
    unfolding step_init_def Let_def by (simp add: blocks_after_update) (simp add: truthy_str_def)
next
  case False
  then show ?thesis unfolding step_init_def Let_def by auto
qed

lemma handle_message_thrown:
  "tracked e st f c = Inl c' \<Longrightarrow>
   handle_message e st c (Some f) = \<lparr>o_client = c', o_state = st, o_sent = [], o_closed = True\<rparr>"
  by (simp add: handle_message_def)

lemma response_of_thrown: "tracked e st f c = Inl c' \<Longrightarrow> response_of e st f c = []"
  by (simp add: response_of_def)

lemma handle_message_client:
  assumes "tracked e st f c = Inr (c9, r9)"
  shows "o_client (handle_message e st c (Some f)) = step_bisq_market f (step_donation f c9)"
    and "\<not> o_closed (handle_message e st c (Some f))"
proof -
  have "o_client (handle_message e st c (Some f)) = step_bisq_market f (step_donation f c9)
        \<and> \<not> o_closed (handle_message e st c (Some f))"
  proof (cases "action f = Some ''init''")
    case True
    from step_init_continues obtain st' where "step_init e st = (st', True, [serializedInitData st'])" by blast
    then show ?thesis using True assms by (simp add: handle_message_def Let_def)
  next
    case False
    then show ?thesis using assms by (simp add: handle_message_def Let_def)
  qed
  then show "o_client (handle_message e st c (Some f)) = step_bisq_market f (step_donation f c9)"
    and "\<not> o_closed (handle_message e st c (Some f))" by simp_all
qed


lemma handle_message_other:
  "action f \<noteq> Some ''init'' \<Longrightarrow>
   o_sent (handle_message e st c (Some f))
     = (if response_of e st f c \<noteq> [] then [serializeResponse (response_of e st f c)] else [])
   \<and> o_state (handle_message e st c (Some f)) = st"
proof (cases "tracked e st f c")
  case (Inl c')
  then show ?thesis by (simp add: handle_message_thrown response_of_thrown)
next
  case (Inr p)
  assume "action f \<noteq> Some ''init''"
  then show ?thesis using Inr by (cases p) (simp add: handle_message_def Let_def)
qed

lemma handle_init:
  "\<exists>st'. step_init e st = (st', True, [serializedInitData st']) \<and>
     handle_message e st c (Some init_frame)
       = \<lparr>o_client = c, o_state = st', o_sent = [serializedInitData st'], o_closed = False\<rparr>"
proof -
  from step_init_continues obtain st' where s: "step_init e st = (st', True, [serializedInitData st'])" by blast
  have t: "tracked e st init_frame c = Inr (c, [])"
    by (simp add: tracked_def init_frame_def empty_frame_def step_want_def step_seed_def step_track_tx_def
        step_track_address_def step_track_addresses_def step_track_scriptpubkeys_def step_track_asset_def
        step_track_mempool_block_def step_track_rbf_def step_track_rbf_summary_def truthy_str_def
        truthy_opt_def)
  have "handle_message e st c (Some init_frame)
       = \<lparr>o_client = c, o_state = st', o_sent = [serializedInitData st'], o_closed = False\<rparr>"
    unfolding handle_message_def response_of_def
    by (simp add: t s) (simp add: init_frame_def empty_frame_def step_donation_def step_bisq_market_def truthy_str_def)
  with s show ?thesis by blast
qed

lemma state0_eq: "state0 = updateSocketData env0 initial_state"
proof -
  from handle_init[of env0 initial_state "new_client ''peer''"] obtain st' where
    s: "step_init env0 initial_state = (st', True, [serializedInitData st'])"
    and h: "handle_message env0 initial_state (new_client ''peer'') (Some init_frame)
       = \<lparr>o_client = new_client ''peer'', o_state = st', o_sent = [serializedInitData st'], o_closed = False\<rparr>" by blast
  have "st' = updateSocketData env0 initial_state"
    using s by (auto simp: step_init_def initial_state_def sd_get_def truthy_str_def Let_def split: if_splits)
  then show ?thesis using h by (simp add: state0_def)
qed

lemma show_nat_samples: "show_nat 0 = ''0''" "show_nat 1 = ''1''" "show_nat (Suc 0) = ''1''" "show_nat 5000 = ''5000''"
  by (simp_all add: show_nat.simps digit_char_def)

lemma state0_sd: "socketData state0 =
   [(''mempoolInfo'', ''{'' @ [dq] @ ''size'' @ [dq] @ '':5000}''),
    (''vBytesPerSecond'', ''0''),
    (''blocks'', ''[]''),
    (''conversions'', ''{'' @ [dq] @ ''USD'' @ [dq] @ '':1}''),
    (''mempool-blocks'', ''[]''),
    (''transactions'', ''[]''),
    (''backendInfo'', ''{'' @ [dq] @ ''hostname'' @ [dq] @ '':'' @ [dq] @ ''node'' @ [dq] @ ''}''),
    (''loadingIndicators'', ''{}''),
    (''fees'', ''{'' @ [dq] @ ''fastestFee'' @ [dq] @ '':1}'')]"
  unfolding state0_eq
  by (simp add: updateSocketData_def updateSocketDataFields_def env0_def initial_state_def slice_last_def
      da_field_def truthy_opt_def obj_del_def quote_def escape_char_def dq_def bs_def show_int_def
      show_nat_samples Let_def del: show_nat.simps)

lemma response0: "response_of env0 state0 (want_frame [''stats'']) (new_client ''peer'') =
   [(''mempoolInfo'', Some (''{'' @ [dq] @ ''size'' @ [dq] @ '':5000}'')),
    (''vBytesPerSecond'', Some ''0''),
    (''fees'', Some (''{'' @ [dq] @ ''fastestFee'' @ [dq] @ '':1}'')),
    (''da'', None)]"
  by (simp add: response_of_def tracked_def want_frame_def empty_frame_def step_want_def wantable_def
        get_want_def set_want_def new_client_def step_seed_def sd_get_def state0_sd
        step_track_tx_def step_track_address_def step_track_addresses_def step_track_scriptpubkeys_def
        step_track_asset_def step_track_mempool_block_def step_track_rbf_def step_track_rbf_summary_def
        truthy_str_def truthy_opt_def)

lemma sent0: "o_sent (handle_message env0 state0 (new_client ''peer'') (Some (want_frame [''stats''])))
       = [serializeResponse (response_of env0 state0 (want_frame [''stats'']) (new_client ''peer''))]"
proof -
  have "action (want_frame [''stats'']) \<noteq> Some ''init''" by (simp add: want_frame_def empty_frame_def)
  from handle_message_other[OF this, of env0 state0 "new_client ''peer''"]
  show ?thesis by (simp add: response0)
qed

lemma text0: "serializeResponse [(''mempoolInfo'', Some (''{'' @ [dq] @ ''size'' @ [dq] @ '':5000}'')),
    (''vBytesPerSecond'', Some ''0''),
    (''fees'', Some (''{'' @ [dq] @ ''fastestFee'' @ [dq] @ '':1}'')),
    (''da'', None)]
       = ''{'' @ [dq] @ ''mempoolInfo'' @ [dq] @ '': {'' @ [dq] @ ''size'' @ [dq] @ '':5000}, ''
          @ [dq] @ ''vBytesPerSecond'' @ [dq] @ '': 0, ''
          @ [dq] @ ''fees'' @ [dq] @ '': {'' @ [dq] @ ''fastestFee'' @ [dq] @ '':1}, ''
          @ [dq] @ ''da'' @ [dq] @ '': undefined}''"
  by (simp add: serializeResponse_def pair_text_def template_def)

lemma invalid0: "\<not> json_valid_object (''{'' @ [dq] @ ''mempoolInfo'' @ [dq] @ '': {'' @ [dq] @ ''size'' @ [dq] @ '':5000}, ''
          @ [dq] @ ''vBytesPerSecond'' @ [dq] @ '': 0, ''
          @ [dq] @ ''fees'' @ [dq] @ '': {'' @ [dq] @ ''fastestFee'' @ [dq] @ '':1}, ''
          @ [dq] @ ''da'' @ [dq] @ '': undefined}'')"
  by code_simp

subsection \<open>Claims about the \<^verbatim>\<open>init\<close> action\<close>

text \<open>
  C1. The claim says that an \<^verbatim>\<open>init\<close> frame received before any block is known is not
  answered. The handler tests the length of the serialized \<^verbatim>\<open>blocks\<close> entry, which is the
  text \<^verbatim>\<open>[]\<close> when no block is known: in every environment without blocks, on a new
  handler, the \<^verbatim>\<open>init\<close> frame is answered with the serialized snapshot, whose \<^verbatim>\<open>blocks\<close>
  entry is \<^verbatim>\<open>[]\<close>.
\<close>
theorem init_sends_before_any_block:
  assumes "getBlocks e = []"
  shows "o_sent (handle_message e initial_state c (Some init_frame))
           = [serializedInitData (o_state (handle_message e initial_state c (Some init_frame)))]
         \<and> sd_get (o_state (handle_message e initial_state c (Some init_frame))) ''blocks'' = Some ''[]''"
proof -
  from handle_init[of e initial_state c] obtain st' where
    s: "step_init e initial_state = (st', True, [serializedInitData st'])"
    and h: "handle_message e initial_state c (Some init_frame)
       = \<lparr>o_client = c, o_state = st', o_sent = [serializedInitData st'], o_closed = False\<rparr>" by blast
  have "st' = updateSocketData e initial_state"
    using s by (auto simp: step_init_def initial_state_def sd_get_def truthy_str_def Let_def split: if_splits)
  then have "sd_get st' ''blocks'' = Some ''[]''"
    using assms by (simp add: blocks_after_update slice_last_def)
  then show ?thesis using h by simp
qed

text \<open>The same in the sample environment.\<close>
theorem init_sends_before_any_block_witness:
  "getBlocks env0 = [] \<and>
   o_sent (handle_message env0 initial_state (new_client ''peer'') (Some init_frame))
     = [serializedInitData (o_state (handle_message env0 initial_state (new_client ''peer'') (Some init_frame)))]
   \<and> sd_get (o_state (handle_message env0 initial_state (new_client ''peer'') (Some init_frame))) ''blocks'' = Some ''[]''"
proof -
  have a: "getBlocks env0 = []" by (simp add: env0_def)
  from init_sends_before_any_block[OF a, of "new_client ''peer''"] a show ?thesis by blast
qed

subsection \<open>Claims about the seeded response\<close>

text \<open>
  C9. In a reachable state whose snapshot has no \<^verbatim>\<open>da\<close> entry, a client that newly
  enables \<^verbatim>\<open>stats\<close> gets a response object whose \<^verbatim>\<open>da\<close> property is \<^verbatim>\<open>undefined\<close>; the frame
  sent prints it as the bare text \<^verbatim>\<open>undefined\<close> and is not a syntactically valid JSON
  object.
\<close>
theorem stats_seed_undefined_da:
  "sd_get state0 ''da'' = None
   \<and> map_of (response_of env0 state0 (want_frame [''stats'']) (new_client ''peer'')) ''da'' = Some None
   \<and> o_sent (handle_message env0 state0 (new_client ''peer'') (Some (want_frame [''stats''])))
       = [''{'' @ [dq] @ ''mempoolInfo'' @ [dq] @ '': {'' @ [dq] @ ''size'' @ [dq] @ '':5000}, ''
          @ [dq] @ ''vBytesPerSecond'' @ [dq] @ '': 0, ''
          @ [dq] @ ''fees'' @ [dq] @ '': {'' @ [dq] @ ''fastestFee'' @ [dq] @ '':1}, ''
          @ [dq] @ ''da'' @ [dq] @ '': undefined}'']
   \<and> \<not> json_valid_object (''{'' @ [dq] @ ''mempoolInfo'' @ [dq] @ '': {'' @ [dq] @ ''size'' @ [dq] @ '':5000}, ''
          @ [dq] @ ''vBytesPerSecond'' @ [dq] @ '': 0, ''
          @ [dq] @ ''fees'' @ [dq] @ '': {'' @ [dq] @ ''fastestFee'' @ [dq] @ '':1}, ''
          @ [dq] @ ''da'' @ [dq] @ '': undefined}'')"
proof (intro conjI)
  show "sd_get state0 ''da'' = None" by (simp add: sd_get_def state0_sd)
  show "map_of (response_of env0 state0 (want_frame [''stats'']) (new_client ''peer'')) ''da'' = Some None"
    by (simp add: response0)
  show "o_sent (handle_message env0 state0 (new_client ''peer'') (Some (want_frame [''stats''])))
       = [''{'' @ [dq] @ ''mempoolInfo'' @ [dq] @ '': {'' @ [dq] @ ''size'' @ [dq] @ '':5000}, ''
          @ [dq] @ ''vBytesPerSecond'' @ [dq] @ '': 0, ''
          @ [dq] @ ''fees'' @ [dq] @ '': {'' @ [dq] @ ''fastestFee'' @ [dq] @ '':1}, ''
          @ [dq] @ ''da'' @ [dq] @ '': undefined}'']"
    unfolding sent0 response0 text0 ..
  show "\<not> json_valid_object (''{'' @ [dq] @ ''mempoolInfo'' @ [dq] @ '': {'' @ [dq] @ ''size'' @ [dq] @ '':5000}, ''
          @ [dq] @ ''vBytesPerSecond'' @ [dq] @ '': 0, ''
          @ [dq] @ ''fees'' @ [dq] @ '': {'' @ [dq] @ ''fastestFee'' @ [dq] @ '':1}, ''
          @ [dq] @ ''da'' @ [dq] @ '': undefined}'')"
    by (rule invalid0)
qed

subsection \<open>The want action\<close>

lemma want_loop_wantable:
  "want_loop wantable d (c, []) =
     (c\<lparr>want_blocks := ''blocks'' \<in> set d, want_mempool_blocks := ''mempool-blocks'' \<in> set d,
        want_live_2h_chart := ''live-2h-chart'' \<in> set d, want_stats := ''stats'' \<in> set d,
        want_tomahawk := ''tomahawk'' \<in> set d\<rparr>,
      snd (want_loop wantable d (c, [])))"
proof -
  have "fst (want_loop wantable d (c, [])) =
     c\<lparr>want_blocks := ''blocks'' \<in> set d, want_mempool_blocks := ''mempool-blocks'' \<in> set d,
        want_live_2h_chart := ''live-2h-chart'' \<in> set d, want_stats := ''stats'' \<in> set d,
        want_tomahawk := ''tomahawk'' \<in> set d\<rparr>"
    by (simp add: wantable_def Let_def set_want_def)
  then show ?thesis by (metis prod.collapse)
qed

lemma tracked_want_frame:
  "\<exists>r. tracked e st (want_frame d) c =
     Inr (c\<lparr>want_blocks := ''blocks'' \<in> set d, want_mempool_blocks := ''mempool-blocks'' \<in> set d,
        want_live_2h_chart := ''live-2h-chart'' \<in> set d, want_stats := ''stats'' \<in> set d,
        want_tomahawk := ''tomahawk'' \<in> set d, wants := True\<rparr>, r)"
  unfolding tracked_def step_want_def
  apply (simp add: want_frame_def empty_frame_def del: want_loop.simps)
  apply (subst want_loop_wantable)
  apply (simp add: Let_def split_def step_track_tx_def
        step_track_address_def step_track_addresses_def step_track_scriptpubkeys_def step_track_asset_def
        step_track_mempool_block_def step_track_rbf_def step_track_rbf_summary_def truthy_str_def
        truthy_opt_def want_frame_def empty_frame_def del: want_loop.simps)
  done

lemma handle_want_frame:
  "o_client (handle_message e st c (Some (want_frame d))) =
     c\<lparr>want_blocks := ''blocks'' \<in> set d, want_mempool_blocks := ''mempool-blocks'' \<in> set d,
        want_live_2h_chart := ''live-2h-chart'' \<in> set d, want_stats := ''stats'' \<in> set d,
        want_tomahawk := ''tomahawk'' \<in> set d, wants := True\<rparr>"
  "o_state (handle_message e st c (Some (want_frame d))) = st"
proof -
  from tracked_want_frame[of e st d c] obtain r where
    t: "tracked e st (want_frame d) c =
     Inr (c\<lparr>want_blocks := ''blocks'' \<in> set d, want_mempool_blocks := ''mempool-blocks'' \<in> set d,
        want_live_2h_chart := ''live-2h-chart'' \<in> set d, want_stats := ''stats'' \<in> set d,
        want_tomahawk := ''tomahawk'' \<in> set d, wants := True\<rparr>, r)" by blast
  show "o_client (handle_message e st c (Some (want_frame d))) =
     c\<lparr>want_blocks := ''blocks'' \<in> set d, want_mempool_blocks := ''mempool-blocks'' \<in> set d,
        want_live_2h_chart := ''live-2h-chart'' \<in> set d, want_stats := ''stats'' \<in> set d,
        want_tomahawk := ''tomahawk'' \<in> set d, wants := True\<rparr>"
    unfolding handle_message_client(1)[OF t]
    by (simp add: want_frame_def empty_frame_def step_donation_def step_bisq_market_def truthy_str_def)
  have "action (want_frame d) \<noteq> Some ''init''" by (simp add: want_frame_def empty_frame_def)
  from handle_message_other[OF this] show "o_state (handle_message e st c (Some (want_frame d))) = st"
    by blast
qed

text \<open>
  C8 (amended). For every session state \<open>s\<close> and every subscription class \<open>c\<close> that is off
  in \<open>s\<close>: processing a \<^verbatim>\<open>want\<close> frame whose data list includes \<open>c\<close> (which turns \<open>c\<close> on)
  and then a \<^verbatim>\<open>want\<close> frame whose data list excludes \<open>c\<close> and names exactly the classes that
  are on in \<open>s\<close> returns the session to the state \<open>s\<close>, with the marker \<^verbatim>\<open>wants\<close> set as after
  any \<^verbatim>\<open>want\<close> frame, and leaves the snapshot as it was.
\<close>
theorem want_on_then_off:
  assumes "c \<in> set wantable" and "\<not> get_want c s" and "c \<in> set d1" and "c \<notin> set d2"
    and "\<forall>x \<in> set wantable. (x \<in> set d2) = get_want x s"
  shows "o_client (handle_message e (o_state (handle_message e st s (Some (want_frame d1))))
                    (o_client (handle_message e st s (Some (want_frame d1)))) (Some (want_frame d2)))
           = s\<lparr>wants := True\<rparr>
         \<and> o_state (handle_message e (o_state (handle_message e st s (Some (want_frame d1))))
                    (o_client (handle_message e st s (Some (want_frame d1)))) (Some (want_frame d2))) = st
         \<and> get_want c (o_client (handle_message e st s (Some (want_frame d1))))"
proof -
  from assms(5) have eq: "(''blocks'' \<in> set d2) = want_blocks s" "(''mempool-blocks'' \<in> set d2) = want_mempool_blocks s"
      "(''live-2h-chart'' \<in> set d2) = want_live_2h_chart s" "(''stats'' \<in> set d2) = want_stats s"
      "(''tomahawk'' \<in> set d2) = want_tomahawk s"
    by (simp_all add: wantable_def get_want_def)
  have on: "get_want c (o_client (handle_message e st s (Some (want_frame d1))))"
    using assms(1,3) unfolding handle_want_frame by (auto simp: wantable_def get_want_def)
  show ?thesis
    unfolding handle_want_frame eq using on unfolding handle_want_frame by simp
qed

text \<open>
  C8 (amended) at a session that has \<^verbatim>\<open>blocks\<close> on, for the class \<^verbatim>\<open>stats\<close>.
\<close>
theorem want_on_then_off_witness:
  "''stats'' \<in> set wantable \<and> \<not> get_want ''stats'' ((new_client ''peer'')\<lparr>want_blocks := True, wants := True\<rparr>)
   \<and> ''stats'' \<in> set [''blocks'', ''stats''] \<and> ''stats'' \<notin> set [''blocks'']
   \<and> list_all (\<lambda>x. (x \<in> set [''blocks'']) = get_want x ((new_client ''peer'')\<lparr>want_blocks := True, wants := True\<rparr>)) wantable
   \<and> o_client (handle_message env0 (o_state (handle_message env0 state0 ((new_client ''peer'')\<lparr>want_blocks := True, wants := True\<rparr>) (Some (want_frame [''blocks'', ''stats'']))))
                    (o_client (handle_message env0 state0 ((new_client ''peer'')\<lparr>want_blocks := True, wants := True\<rparr>) (Some (want_frame [''blocks'', ''stats''])))) (Some (want_frame [''blocks''])))
           = (new_client ''peer'')\<lparr>want_blocks := True, wants := True\<rparr>"
proof -
  let ?s = "(new_client ''peer'')\<lparr>want_blocks := True, wants := True\<rparr>"
  have a: "''stats'' \<in> set wantable" by (simp add: wantable_def)
  have b: "\<not> get_want ''stats'' ?s" by (simp add: get_want_def new_client_def)
  have c: "''stats'' \<in> set [''blocks'', ''stats'']" by simp
  have d: "''stats'' \<notin> set [''blocks'']" by simp
  have f: "\<forall>x \<in> set wantable. (x \<in> set [''blocks'']) = get_want x ?s"
    by (simp add: wantable_def get_want_def new_client_def)
  have g: "?s\<lparr>wants := True\<rparr> = ?s" by simp
  have f': "list_all (\<lambda>x. (x \<in> set [''blocks'']) = get_want x ?s) wantable"
    using f by (simp add: list_all_iff)
  note r = want_on_then_off[OF a b c d f, of env0 state0, THEN conjunct1, unfolded g]
  show ?thesis by (intro conjI) (fact a b c d f' r)+
qed

text \<open>
  C8 as stated fails: a \<^verbatim>\<open>want\<close> frame sets every class by membership in its list, so the
  second frame leaves \<^verbatim>\<open>stats\<close> on in a session where it was off; and a class that was
  on before the first frame is off after the second.
\<close>
theorem want_on_then_off_counterexample:
  "''blocks'' \<in> set wantable \<and> ''blocks'' \<in> set [''blocks'', ''stats''] \<and> ''blocks'' \<notin> set [''stats'']
   \<and> o_client (handle_message env0 (o_state (handle_message env0 state0 ((new_client ''peer'')\<lparr>wants := True\<rparr>) (Some (want_frame [''blocks'', ''stats'']))))
                    (o_client (handle_message env0 state0 ((new_client ''peer'')\<lparr>wants := True\<rparr>) (Some (want_frame [''blocks'', ''stats''])))) (Some (want_frame [''stats''])))
           \<noteq> (new_client ''peer'')\<lparr>wants := True\<rparr>
   \<and> ''blocks'' \<in> set [''blocks''] \<and> ''blocks'' \<notin> set []
   \<and> o_client (handle_message env0 (o_state (handle_message env0 state0 ((new_client ''peer'')\<lparr>want_blocks := True, wants := True\<rparr>) (Some (want_frame [''blocks'']))))
                    (o_client (handle_message env0 state0 ((new_client ''peer'')\<lparr>want_blocks := True, wants := True\<rparr>) (Some (want_frame [''blocks''])))) (Some (want_frame [])))
           \<noteq> (new_client ''peer'')\<lparr>want_blocks := True, wants := True\<rparr>"
  unfolding handle_want_frame
  by (simp add: wantable_def new_client_def)

subsection \<open>The tracked addresses and scripts\<close>















subsection \<open>What each step leaves alone\<close>















subsection \<open>The steps that can throw\<close>











subsection \<open>The listener on the tracked addresses and scripts\<close>
















subsection \<open>Sample addresses and scripts\<close>

















section \<open>Properties of the fan-out\<close>

subsection \<open>Decimal text is injective\<close>

lemma digit_val_digit_char: "d < 10 \<Longrightarrow> digit_val (digit_char d) = d"
  by (auto simp: numeral_eq_Suc less_Suc_eq digit_val_def digit_char_def)

lemma read_show_nat: "read_nat (show_nat n) = n"
proof (induction n rule: show_nat.induct)
  case (1 n)
  show ?case
  proof (cases "n < 10")
    case True
    then show ?thesis by (simp add: show_nat.simps read_nat_def digit_val_digit_char)
  next
    case False
    have m: "n mod 10 < 10" by simp
    from False 1 have ih: "read_nat (show_nat (n div 10)) = n div 10" by simp
    have "show_nat n = show_nat (n div 10) @ [digit_char (n mod 10)]"
      using False by (subst show_nat.simps) simp
    then have "read_nat (show_nat n) = read_nat (show_nat (n div 10)) * 10 + digit_val (digit_char (n mod 10))"
      by (simp add: read_nat_def)
    then show ?thesis using ih digit_val_digit_char[OF m] by simp
  qed
qed

lemma show_nat_inj: "show_nat a = show_nat b \<Longrightarrow> a = b"
  by (metis read_show_nat)

subsection \<open>The outspend index\<close>

lemma map_of_int_set: "map_of (int_set k v m) k' = (if k' = k then Some v else map_of m k')"
  by (induction m) auto

lemma int_set_not_Nil: "int_set k v m \<noteq> []"
  by (cases m) auto

lemma outspend_vins_Cons:
  "outspend_vins tr txid i (v # vs) oc = outspend_vins tr txid (Suc i) vs (outspend_one tr txid i v oc)"
  by simp

lemma outspend_vins_append:
  "outspend_vins tr txid i (a @ b) oc = outspend_vins tr txid (i + length a) b (outspend_vins tr txid i a oc)"
  by (induction a arbitrary: i oc) simp_all

lemma outspend_one_lookup:
  "oc_lookup (outspend_one tr txid i x oc) t v =
     (if vin_txid x \<in> set tr \<and> vin_txid x = t \<and> vin_vout x = v then Some (i, txid) else oc_lookup oc t v)"
  by (auto simp: outspend_one_def oc_lookup_def map_of_obj_set map_of_int_set split: option.splits)

lemma outspend_vins_miss:
  "\<not> spends t v vs \<Longrightarrow> oc_lookup (outspend_vins tr txid i vs oc) t v = oc_lookup oc t v"
  by (induction vs arbitrary: i oc)
     (auto simp add: outspend_one_lookup spends_def)

lemma outspend_vins_hit:
  assumes "t \<in> set tr" and "vin_txid x = t" and "vin_vout x = v" and "\<not> spends t v post"
  shows "oc_lookup (outspend_vins tr txid i (pre @ x # post) oc) t v = Some (i + length pre, txid)"
  using assms
  by (simp add: outspend_vins_append outspend_vins_miss outspend_one_lookup)

lemma outspend_txs_miss:
  "list_all (\<lambda>tx. \<not> spends t v (mtx_vin tx)) txs \<Longrightarrow>
   oc_lookup (outspend_txs tr txs oc) t v = oc_lookup oc t v"
  by (induction txs arbitrary: oc) (simp_all add: outspend_vins_miss)

lemma outspend_txs_append:
  "outspend_txs tr (a @ b) oc = outspend_txs tr b (outspend_txs tr a oc)"
  by (induction a arbitrary: oc) simp_all

lemma outspend_txs_hit:
  assumes "t \<in> set tr" and "mtx_vin b = pre @ x # post" and "vin_txid x = t" and "vin_vout x = v"
    and "\<not> spends t v post" and "list_all (\<lambda>tx. \<not> spends t v (mtx_vin tx)) tpost"
  shows "oc_lookup (outspend_txs tr (tpre @ b # tpost) oc) t v = Some (length pre, mtx_txid b)"
  using assms outspend_vins_hit[OF assms(1,3,4,5), of "mtx_txid b" 0 pre]
  by (simp add: outspend_txs_append outspend_txs_miss)

text \<open>Only tracked transactions get an entry, and no entry is empty.\<close>

lemma outspend_one_keys:
  "map_of (outspend_one tr txid i x oc) t = Some m \<Longrightarrow>
   (t \<in> set tr \<and> m \<noteq> []) \<or> map_of oc t = Some m"
  by (auto simp: outspend_one_def map_of_obj_set int_set_not_Nil split: option.splits if_splits)

lemma outspend_vins_keys:
  "map_of (outspend_vins tr txid i vs oc) t = Some m \<Longrightarrow>
   (t \<in> set tr \<and> m \<noteq> []) \<or> map_of oc t = Some m"
proof (induction vs arbitrary: i oc)
  case Nil then show ?case by simp
next
  case (Cons x vs)
  from Cons.prems have "map_of (outspend_vins tr txid (Suc i) vs (outspend_one tr txid i x oc)) t = Some m"
    by (simp only: outspend_vins_Cons)
  from Cons.IH[OF this] outspend_one_keys show ?case by blast
qed

lemma outspend_txs_keys:
  "map_of (outspend_txs tr txs oc) t = Some m \<Longrightarrow>
   (t \<in> set tr \<and> m \<noteq> []) \<or> map_of oc t = Some m"
proof (induction txs arbitrary: oc)
  case Nil then show ?case by simp
next
  case (Cons b txs)
  from Cons.IH[of "outspend_vins tr (mtx_txid b) 0 (mtx_vin b) oc"] Cons.prems outspend_vins_keys
  show ?case by (simp del: outspend_vins.simps) blast
qed

text \<open>Every entry is an input of a new transaction.\<close>

lemma outspend_vins_sound:
  assumes "oc_lookup (outspend_vins tr txid i vs oc) t v = Some e"
  shows "oc_lookup oc t v = Some e \<or>
         (snd e = txid \<and> i \<le> fst e \<and> fst e - i < length vs
            \<and> vin_txid (vs ! (fst e - i)) = t \<and> vin_vout (vs ! (fst e - i)) = v)"
  using assms
proof (induction vs arbitrary: i oc)
  case Nil then show ?case by simp
next
  case (Cons x vs)
  from Cons.prems have "oc_lookup (outspend_vins tr txid (Suc i) vs (outspend_one tr txid i x oc)) t v = Some e"
    by (simp only: outspend_vins_Cons)
  from Cons.IH[OF this] show ?case
  proof
    assume "oc_lookup (outspend_one tr txid i x oc) t v = Some e"
    then show ?thesis by (auto simp: outspend_one_lookup split: if_splits)
  next
    assume a: "snd e = txid \<and> Suc i \<le> fst e \<and> fst e - Suc i < length vs \<and>
      vin_txid (vs ! (fst e - Suc i)) = t \<and> vin_vout (vs ! (fst e - Suc i)) = v"
    then have "fst e - i = Suc (fst e - Suc i)" by arith
    with a show ?thesis by auto
  qed
qed

lemma outspend_txs_sound:
  "oc_lookup (outspend_txs tr txs oc) t v = Some e \<Longrightarrow> oc_lookup oc t v = Some e \<or> is_spend txs t v e"
proof (induction txs arbitrary: oc)
  case Nil then show ?case by simp
next
  case (Cons b txs)
  from Cons.IH[of "outspend_vins tr (mtx_txid b) 0 (mtx_vin b) oc"] Cons.prems
  have "oc_lookup (outspend_vins tr (mtx_txid b) 0 (mtx_vin b) oc) t v = Some e \<or> is_spend txs t v e"
    by (simp del: outspend_vins.simps)
  then show ?case
  proof
    assume "oc_lookup (outspend_vins tr (mtx_txid b) 0 (mtx_vin b) oc) t v = Some e"
    from outspend_vins_sound[OF this] show ?thesis by (auto simp: is_spend_def)
  next
    assume "is_spend txs t v e" then show ?thesis by (simp add: is_spend_def)
  qed
qed

lemma outspends_json_entry:
  "jget (show_nat v) (outspends_json m) =
     map_option (\<lambda>e. JObj [(''vin'', JNum (int (fst e))), (''txid'', JStr (snd e))]) (map_of m v)"
  by (induction m) (auto simp: outspends_json_def dest: show_nat_inj)

lemma tracked_member:
  "cl \<in> set clients \<Longrightarrow> track_tx cl = Some t \<Longrightarrow> t \<noteq> [] \<Longrightarrow> t \<in> set (trackedTxs clients)"
  by (force simp: trackedTxs_def truthy_str_def)

lemma outspendCache_eq:
  "trackedTxs clients \<noteq> [] \<Longrightarrow> outspendCache clients txs = outspend_txs (trackedTxs clients) txs []"
  by (simp add: outspendCache_def Let_def)

lemma last_spend:
  assumes "list_ex (\<lambda>b. spends t v (mtx_vin b)) txs"
  shows "\<exists>tpre b tpost pre x post. txs = tpre @ b # tpost \<and> mtx_vin b = pre @ x # post
     \<and> vin_txid x = t \<and> vin_vout x = v \<and> \<not> spends t v post
     \<and> list_all (\<lambda>tx. \<not> spends t v (mtx_vin tx)) tpost"
proof -
  from assms have "\<exists>b\<in>set txs. spends t v (mtx_vin b)" by (simp add: list_ex_iff)
  from split_list_last_prop[OF this] obtain tpre b tpost where
    1: "txs = tpre @ b # tpost" "spends t v (mtx_vin b)" "\<forall>z\<in>set tpost. \<not> spends t v (mtx_vin z)" by blast
  from 1(2) have "\<exists>x\<in>set (mtx_vin b). vin_txid x = t \<and> vin_vout x = v" by (simp add: spends_def list_ex_iff)
  from split_list_last_prop[OF this] obtain pre x post where
    2: "mtx_vin b = pre @ x # post" "vin_txid x = t \<and> vin_vout x = v"
       "\<forall>z\<in>set post. \<not> (vin_txid z = t \<and> vin_vout z = v)" by blast
  from 2(3) have p: "\<not> spends t v post" by (simp add: spends_def list_ex_iff)
  from 1(3) have q: "list_all (\<lambda>tx. \<not> spends t v (mtx_vin tx)) tpost" by (simp add: list_all_iff)
  from 1(1) 2(1,2) p q show ?thesis by blast
qed

text \<open>
  C7 (amended). During mempool-delta fan-out the outspend index has an entry only for
  txids tracked by some client, every entry \<open>v \<mapsto> (i, txid)\<close> under \<open>t\<close> is input \<open>i\<close> of the
  new transaction \<open>txid\<close> spending output \<open>v\<close> of \<open>t\<close>, and every output of a tracked
  transaction spent by a new transaction has an entry. For every client with
  \<^verbatim>\<open>trackTx = t\<close>: if a new transaction \<open>b\<close> spends output \<open>v\<close> of \<open>t\<close> at its input index \<open>i\<close>,
  and no later input of \<open>b\<close> or of a later new transaction spends the same output, the
  client's \<^verbatim>\<open>utxoSpent\<close> is the serialized map with the entry \<open>v \<mapsto> {vin: i, txid: b.txid}\<close>.
\<close>
theorem outspend_index:
  "(\<forall>t m. map_of (outspendCache clients txs) t = Some m \<longrightarrow> t \<in> set (trackedTxs clients) \<and> m \<noteq> [])
   \<and> (\<forall>t v e. oc_lookup (outspendCache clients txs) t v = Some e \<longrightarrow> is_spend txs t v e)
   \<and> (\<forall>t v. t \<in> set (trackedTxs clients) \<and> list_ex (\<lambda>b. spends t v (mtx_vin b)) txs
         \<longrightarrow> oc_lookup (outspendCache clients txs) t v \<noteq> None)
   \<and> (cl \<in> set clients \<and> track_tx cl = Some t \<and> t \<noteq> [] \<and> txs = tpre @ b # tpost
       \<and> mtx_vin b = pre @ x # post \<and> vin_txid x = t \<and> vin_vout x = v
       \<and> \<not> spends t v post \<and> list_all (\<lambda>tx. \<not> spends t v (mtx_vin tx)) tpost
      \<longrightarrow> (\<exists>m. map_of (outspendCache clients txs) t = Some m
             \<and> map_of m v = Some (length pre, mtx_txid b)
             \<and> utxoSpent (outspendCache clients txs) cl = Some (stringify (outspends_json m))
             \<and> jget (show_nat v) (outspends_json m)
                 = Some (JObj [(''vin'', JNum (int (length pre))), (''txid'', JStr (mtx_txid b))])))"
proof -
  have p1: "\<forall>t m. map_of (outspendCache clients txs) t = Some m \<longrightarrow> t \<in> set (trackedTxs clients) \<and> m \<noteq> []"
  proof (intro allI impI)
    fix t m assume a: "map_of (outspendCache clients txs) t = Some m"
    show "t \<in> set (trackedTxs clients) \<and> m \<noteq> []"
    proof (cases "trackedTxs clients = []")
      case True then show ?thesis using a by (simp add: outspendCache_def)
    next
      case False
      from a outspend_txs_keys[of "trackedTxs clients" txs "[]" t m] show ?thesis
        by (simp add: outspendCache_eq[OF False])
    qed
  qed
  have p2: "\<forall>t v e. oc_lookup (outspendCache clients txs) t v = Some e \<longrightarrow> is_spend txs t v e"
  proof (intro allI impI)
    fix t v e assume a: "oc_lookup (outspendCache clients txs) t v = Some e"
    show "is_spend txs t v e"
    proof (cases "trackedTxs clients = []")
      case True then show ?thesis using a by (simp add: outspendCache_def oc_lookup_def)
    next
      case False
      from a outspend_txs_sound[of "trackedTxs clients" txs "[]" t v e] show ?thesis
        by (simp add: outspendCache_eq[OF False] oc_lookup_def)
    qed
  qed
  have p3: "\<forall>t v. t \<in> set (trackedTxs clients) \<and> list_ex (\<lambda>b. spends t v (mtx_vin b)) txs
         \<longrightarrow> oc_lookup (outspendCache clients txs) t v \<noteq> None"
  proof (intro allI impI)
    fix t v assume a: "t \<in> set (trackedTxs clients) \<and> list_ex (\<lambda>b. spends t v (mtx_vin b)) txs"
    then have ne: "trackedTxs clients \<noteq> []" by auto
    from a last_spend obtain tpre b tpost pre x post where
      d: "txs = tpre @ b # tpost" "mtx_vin b = pre @ x # post" "vin_txid x = t" "vin_vout x = v"
         "\<not> spends t v post" "list_all (\<lambda>tx. \<not> spends t v (mtx_vin tx)) tpost" by blast
    from a have t: "t \<in> set (trackedTxs clients)" by simp
    from outspend_txs_hit[OF t d(2,3,4,5,6)] show "oc_lookup (outspendCache clients txs) t v \<noteq> None"
      by (simp add: outspendCache_eq[OF ne] d(1))
  qed
  have p4: "cl \<in> set clients \<and> track_tx cl = Some t \<and> t \<noteq> [] \<and> txs = tpre @ b # tpost
       \<and> mtx_vin b = pre @ x # post \<and> vin_txid x = t \<and> vin_vout x = v
       \<and> \<not> spends t v post \<and> list_all (\<lambda>tx. \<not> spends t v (mtx_vin tx)) tpost
      \<longrightarrow> (\<exists>m. map_of (outspendCache clients txs) t = Some m
             \<and> map_of m v = Some (length pre, mtx_txid b)
             \<and> utxoSpent (outspendCache clients txs) cl = Some (stringify (outspends_json m))
             \<and> jget (show_nat v) (outspends_json m)
                 = Some (JObj [(''vin'', JNum (int (length pre))), (''txid'', JStr (mtx_txid b))]))"
  proof
    assume a: "cl \<in> set clients \<and> track_tx cl = Some t \<and> t \<noteq> [] \<and> txs = tpre @ b # tpost
       \<and> mtx_vin b = pre @ x # post \<and> vin_txid x = t \<and> vin_vout x = v
       \<and> \<not> spends t v post \<and> list_all (\<lambda>tx. \<not> spends t v (mtx_vin tx)) tpost"
    then have t: "t \<in> set (trackedTxs clients)" using tracked_member by blast
    then have ne: "trackedTxs clients \<noteq> []" by auto
    from a have d: "mtx_vin b = pre @ x # post" "vin_txid x = t" "vin_vout x = v"
       "\<not> spends t v post" "list_all (\<lambda>tx. \<not> spends t v (mtx_vin tx)) tpost" by simp_all
    from outspend_txs_hit[OF t d] a
    have l: "oc_lookup (outspendCache clients txs) t v = Some (length pre, mtx_txid b)"
      by (simp add: outspendCache_eq[OF ne])
    then obtain m where m: "map_of (outspendCache clients txs) t = Some m" "map_of m v = Some (length pre, mtx_txid b)"
      by (auto simp: oc_lookup_def split: option.splits)
    from m(2) have "m \<noteq> []" by auto
    then have u: "utxoSpent (outspendCache clients txs) cl = Some (stringify (outspends_json m))"
      using a m(1) by (simp add: utxoSpent_def truthy_str_def)
    have j: "jget (show_nat v) (outspends_json m)
                 = Some (JObj [(''vin'', JNum (int (length pre))), (''txid'', JStr (mtx_txid b))])"
      by (simp add: outspends_json_entry m(2))
    from m u j show "\<exists>m. map_of (outspendCache clients txs) t = Some m
             \<and> map_of m v = Some (length pre, mtx_txid b)
             \<and> utxoSpent (outspendCache clients txs) cl = Some (stringify (outspends_json m))
             \<and> jget (show_nat v) (outspends_json m)
                 = Some (JObj [(''vin'', JNum (int (length pre))), (''txid'', JStr (mtx_txid b))])"
      by blast
  qed
  show ?thesis by (rule conjI[OF p1 conjI[OF p2 conjI[OF p3 p4]]])
qed

text \<open>
  C7 (amended) at the scenario of the specification: the client tracks \<^verbatim>\<open>aa..aa\<close>, the new
  transaction \<^verbatim>\<open>bb..bb\<close> spends its output 0 at input 0.
\<close>
theorem outspend_index_witness:
  "(new_client ''peer'')\<lparr>track_tx := Some (replicate 64 CHR ''a'')\<rparr>
      \<in> set [(new_client ''peer'')\<lparr>track_tx := Some (replicate 64 CHR ''a'')\<rparr>]
   \<and> track_tx ((new_client ''peer'')\<lparr>track_tx := Some (replicate 64 CHR ''a'')\<rparr>) = Some (replicate 64 CHR ''a'')
   \<and> replicate 64 CHR ''a'' \<noteq> []
   \<and> [\<lparr>mtx_txid = replicate 64 CHR ''b'', mtx_vin = [\<lparr>vin_txid = replicate 64 CHR ''a'', vin_vout = 0\<rparr>]\<rparr>]
       = [] @ \<lparr>mtx_txid = replicate 64 CHR ''b'', mtx_vin = [\<lparr>vin_txid = replicate 64 CHR ''a'', vin_vout = 0\<rparr>]\<rparr> # []
   \<and> \<not> spends (replicate 64 CHR ''a'') 0 []
   \<and> list_all (\<lambda>tx. \<not> spends (replicate 64 CHR ''a'') 0 (mtx_vin tx)) []
   \<and> (\<exists>m. map_of (outspendCache [(new_client ''peer'')\<lparr>track_tx := Some (replicate 64 CHR ''a'')\<rparr>]
                [\<lparr>mtx_txid = replicate 64 CHR ''b'', mtx_vin = [\<lparr>vin_txid = replicate 64 CHR ''a'', vin_vout = 0\<rparr>]\<rparr>])
              (replicate 64 CHR ''a'') = Some m
          \<and> map_of m 0 = Some (0, replicate 64 CHR ''b'')
          \<and> utxoSpent (outspendCache [(new_client ''peer'')\<lparr>track_tx := Some (replicate 64 CHR ''a'')\<rparr>]
                [\<lparr>mtx_txid = replicate 64 CHR ''b'', mtx_vin = [\<lparr>vin_txid = replicate 64 CHR ''a'', vin_vout = 0\<rparr>]\<rparr>])
              ((new_client ''peer'')\<lparr>track_tx := Some (replicate 64 CHR ''a'')\<rparr>)
             = Some (stringify (outspends_json m))
          \<and> jget ''0'' (outspends_json m)
             = Some (JObj [(''vin'', JNum 0), (''txid'', JStr (replicate 64 CHR ''b''))]))"
proof -
  let ?t = "replicate 64 CHR ''a''"
  let ?cl = "(new_client ''peer'')\<lparr>track_tx := Some ?t\<rparr>"
  let ?b = "\<lparr>mtx_txid = replicate 64 CHR ''b'', mtx_vin = [\<lparr>vin_txid = ?t, vin_vout = 0\<rparr>]\<rparr>"
  have h1: "?cl \<in> set [?cl]" by simp
  have h2: "track_tx ?cl = Some ?t" by simp
  have h3: "?t \<noteq> []" by simp
  have h4: "[?b] = [] @ ?b # []" by simp
  have h5: "mtx_vin ?b = [] @ \<lparr>vin_txid = ?t, vin_vout = 0\<rparr> # []" by simp
  have h6: "vin_txid \<lparr>vin_txid = ?t, vin_vout = 0\<rparr> = ?t" by simp
  have h7: "vin_vout \<lparr>vin_txid = ?t, vin_vout = 0\<rparr> = 0" by simp
  have h8: "\<not> spends ?t 0 []" by (simp add: spends_def)
  have h9: "list_all (\<lambda>tx. \<not> spends ?t 0 (mtx_vin tx)) []" by simp
  have s0: "show_nat 0 = ''0''" by (simp add: show_nat.simps digit_char_def)
  note r = outspend_index[of "[?cl]" "[?b]" ?cl ?t "[]" ?b "[]" "[]" "\<lparr>vin_txid = ?t, vin_vout = 0\<rparr>" "[]" 0,
      THEN conjunct2, THEN conjunct2, THEN conjunct2, THEN mp,
      OF conjI, OF h1 conjI, OF h2 conjI, OF h3 conjI, OF h4 conjI, OF h5 conjI, OF h6 conjI,
      OF h7 conjI, OF h8 h9, unfolded s0 list.size mtx.simps of_nat_0]
  show ?thesis
    by (intro conjI) (fact h1 h2 h3 h4 h8 h9 r)+
qed

text \<open>
  C7 as stated fails when two new transactions spend the same output: the index keeps the
  last one, so the entry for the first spender is not the one sent.
\<close>
theorem outspend_index_counterexample:
  "(new_client ''peer'')\<lparr>track_tx := Some (replicate 64 CHR ''a'')\<rparr>
      \<in> set [(new_client ''peer'')\<lparr>track_tx := Some (replicate 64 CHR ''a'')\<rparr>]
   \<and> \<lparr>mtx_txid = replicate 64 CHR ''b'', mtx_vin = [\<lparr>vin_txid = replicate 64 CHR ''a'', vin_vout = 0\<rparr>]\<rparr>
      \<in> set [\<lparr>mtx_txid = replicate 64 CHR ''b'', mtx_vin = [\<lparr>vin_txid = replicate 64 CHR ''a'', vin_vout = 0\<rparr>]\<rparr>,
              \<lparr>mtx_txid = replicate 64 CHR ''d'', mtx_vin = [\<lparr>vin_txid = replicate 64 CHR ''a'', vin_vout = 0\<rparr>]\<rparr>]
   \<and> utxoSpent (outspendCache [(new_client ''peer'')\<lparr>track_tx := Some (replicate 64 CHR ''a'')\<rparr>]
         [\<lparr>mtx_txid = replicate 64 CHR ''b'', mtx_vin = [\<lparr>vin_txid = replicate 64 CHR ''a'', vin_vout = 0\<rparr>]\<rparr>,
          \<lparr>mtx_txid = replicate 64 CHR ''d'', mtx_vin = [\<lparr>vin_txid = replicate 64 CHR ''a'', vin_vout = 0\<rparr>]\<rparr>])
       ((new_client ''peer'')\<lparr>track_tx := Some (replicate 64 CHR ''a'')\<rparr>)
      = Some (stringify (outspends_json [(0, (0, replicate 64 CHR ''d''))]))
   \<and> jget ''0'' (outspends_json [(0, (0, replicate 64 CHR ''d''))])
      \<noteq> Some (JObj [(''vin'', JNum 0), (''txid'', JStr (replicate 64 CHR ''b''))])"
proof -
  have s0: "show_nat 0 = ''0''" by (simp add: show_nat.simps digit_char_def)
  have ne: "replicate 64 CHR ''d'' \<noteq> replicate 64 CHR ''b''"
    by (simp add: numeral_eq_Suc)
  have oc: "outspendCache [(new_client ''peer'')\<lparr>track_tx := Some (replicate 64 CHR ''a'')\<rparr>]
         [\<lparr>mtx_txid = replicate 64 CHR ''b'', mtx_vin = [\<lparr>vin_txid = replicate 64 CHR ''a'', vin_vout = 0\<rparr>]\<rparr>,
          \<lparr>mtx_txid = replicate 64 CHR ''d'', mtx_vin = [\<lparr>vin_txid = replicate 64 CHR ''a'', vin_vout = 0\<rparr>]\<rparr>]
       = [(replicate 64 CHR ''a'', [(0, (0, replicate 64 CHR ''d''))])]"
    by (simp add: outspendCache_def outspend_one_def trackedTxs_def truthy_str_def Let_def)
  show ?thesis
    unfolding oc using ne by (simp add: utxoSpent_def truthy_str_def outspends_json_def s0)
qed

subsection \<open>Fan-out of a new block\<close>

lemma key_distinct:
  "full_key i = full_key j \<longleftrightarrow> i = j"
  "delta_key i = delta_key j \<longleftrightarrow> i = j"
  "full_key i \<noteq> delta_key j"
  "delta_key i \<noteq> full_key j"
  by (auto simp: full_key_def delta_key_def dest: show_nat_inj)

lemma getCachedResponse_clean:
  assumes "map_of cache key = None \<or> map_of cache key = Some (stringify d)"
  shows "fst (getCachedResponse key d cache) = stringify d"
    and "snd (getCachedResponse key d cache) = cache \<or> snd (getCachedResponse key d cache) = obj_set key (stringify d) cache"
  using assms by (auto simp: getCachedResponse_def truthy_str_def)

lemma cache_clean_full:
  assumes "cache_clean p j cache" and "transactions_at (mBlocksWithTransactions p) i = Some txs"
  shows "cache_clean p j (obj_set (full_key i) (stringify (full_payload p i txs)) cache)"
  using assms by (auto simp: cache_clean_def map_of_obj_set key_distinct split: option.splits)

lemma cache_clean_delta:
  assumes "cache_clean p j cache" and "i < length (mBlockDeltas p)"
  shows "cache_clean p j (obj_set (delta_key i) (stringify (delta_payload i (mBlockDeltas p ! i))) cache)"
  using assms by (auto simp: cache_clean_def map_of_obj_set key_distinct split: option.splits)

text \<open>
  C6 (amended). During new-block fan-out, for every client tracking the projected-block
  index \<open>i\<close> while the mempool engine reports in-sync, a delta (with its \<^verbatim>\<open>added\<close> list)
  exists for that index and the projected block at that index has a non-empty list of
  transactions: the client's \<^verbatim>\<open>projected-block-transactions\<close> is \<open>{index, delta}\<close> when
  \<open>|delta.added| \<le> |block.transactions| / 2\<close> and \<open>{index, blockTransactions}\<close> with the
  compressed full list otherwise, provided the per-event cache holds nothing foreign under
  the two keys of that index; and the cache stays so for every index.
\<close>
theorem newblock_projected_response:
  assumes "isInSync p" and "track_mempool_block c = MBIndex i"
    and "i < length (mBlockDeltas p)" and "truthy (mBlockDeltas p ! i)"
    and "delta_added (mBlockDeltas p ! i) = Some added"
    and "transactions_at (mBlocksWithTransactions p) i = Some txs" and "txs \<noteq> []"
    and "cache_clean p i cache"
  shows "\<exists>cache'. newblock_projected p cache c
           = Inr (Some (if real (length added) \<le> real (length txs) / 2
                        then stringify (delta_payload i (mBlockDeltas p ! i))
                        else stringify (full_payload p i txs)), cache')
         \<and> (\<forall>j. cache_clean p j cache \<longrightarrow> cache_clean p j cache')"
proof (cases "real (length added) \<le> real (length txs) / 2")
  case True
  let ?d = "delta_payload i (mBlockDeltas p ! i)"
  let ?g = "getCachedResponse (delta_key i) ?d cache"
  have k: "map_of cache (delta_key i) = None \<or> map_of cache (delta_key i) = Some (stringify ?d)"
    using assms(8) by (auto simp: cache_clean_def split: option.splits)
  have r: "newblock_projected p cache c = Inr (Some (fst ?g), snd ?g)"
    using assms True by (simp add: newblock_projected_def Let_def split_def)
  have "\<forall>j. cache_clean p j cache \<longrightarrow> cache_clean p j (snd ?g)"
    using getCachedResponse_clean(2)[OF k] cache_clean_delta[OF _ assms(3)] by auto
  then show ?thesis using r True getCachedResponse_clean(1)[OF k] by simp
next
  case False
  let ?d = "full_payload p i txs"
  let ?g = "getCachedResponse (full_key i) ?d cache"
  have k: "map_of cache (full_key i) = None \<or> map_of cache (full_key i) = Some (stringify ?d)"
    using assms(8,6) by (auto simp: cache_clean_def split: option.splits)
  have r: "newblock_projected p cache c = Inr (Some (fst ?g), snd ?g)"
    using assms False by (simp add: newblock_projected_def Let_def split_def)
  have "\<forall>j. cache_clean p j cache \<longrightarrow> cache_clean p j (snd ?g)"
    using getCachedResponse_clean(2)[OF k] cache_clean_full[OF _ assms(6)] by auto
  then show ?thesis using r False getCachedResponse_clean(1)[OF k] by simp
qed

text \<open>
  C6 (amended) on a projected block of three transactions: a delta adding one is sent as
  a delta, a delta adding two is sent as the full list.
\<close>
theorem newblock_projected_response_witness:
  "isInSync (proj0 [JStr ''t1''] [JStr ''t1'', JStr ''t2'', JStr ''t3''])
   \<and> track_mempool_block ((new_client ''peer'')\<lparr>track_mempool_block := MBIndex 0\<rparr>) = MBIndex 0
   \<and> 0 < length (mBlockDeltas (proj0 [JStr ''t1''] [JStr ''t1'', JStr ''t2'', JStr ''t3'']))
   \<and> truthy (mBlockDeltas (proj0 [JStr ''t1''] [JStr ''t1'', JStr ''t2'', JStr ''t3'']) ! 0)
   \<and> delta_added (mBlockDeltas (proj0 [JStr ''t1''] [JStr ''t1'', JStr ''t2'', JStr ''t3'']) ! 0) = Some [JStr ''t1'']
   \<and> transactions_at (mBlocksWithTransactions (proj0 [JStr ''t1''] [JStr ''t1'', JStr ''t2'', JStr ''t3''])) 0
        = Some [JStr ''t1'', JStr ''t2'', JStr ''t3'']
   \<and> [JStr ''t1'', JStr ''t2'', JStr ''t3''] \<noteq> []
   \<and> cache_clean (proj0 [JStr ''t1''] [JStr ''t1'', JStr ''t2'', JStr ''t3'']) 0 []
   \<and> (\<exists>cache'. newblock_projected (proj0 [JStr ''t1''] [JStr ''t1'', JStr ''t2'', JStr ''t3'']) []
          ((new_client ''peer'')\<lparr>track_mempool_block := MBIndex 0\<rparr>)
        = Inr (Some (stringify (delta_payload 0
            (mBlockDeltas (proj0 [JStr ''t1''] [JStr ''t1'', JStr ''t2'', JStr ''t3'']) ! 0))), cache'))
   \<and> isInSync (proj0 [JStr ''t1'', JStr ''t2''] [JStr ''t1'', JStr ''t2'', JStr ''t3''])
   \<and> 0 < length (mBlockDeltas (proj0 [JStr ''t1'', JStr ''t2''] [JStr ''t1'', JStr ''t2'', JStr ''t3'']))
   \<and> truthy (mBlockDeltas (proj0 [JStr ''t1'', JStr ''t2''] [JStr ''t1'', JStr ''t2'', JStr ''t3'']) ! 0)
   \<and> delta_added (mBlockDeltas (proj0 [JStr ''t1'', JStr ''t2''] [JStr ''t1'', JStr ''t2'', JStr ''t3'']) ! 0)
        = Some [JStr ''t1'', JStr ''t2'']
   \<and> transactions_at (mBlocksWithTransactions (proj0 [JStr ''t1'', JStr ''t2''] [JStr ''t1'', JStr ''t2'', JStr ''t3''])) 0
        = Some [JStr ''t1'', JStr ''t2'', JStr ''t3'']
   \<and> cache_clean (proj0 [JStr ''t1'', JStr ''t2''] [JStr ''t1'', JStr ''t2'', JStr ''t3'']) 0 []
   \<and> (\<exists>cache'. newblock_projected (proj0 [JStr ''t1'', JStr ''t2''] [JStr ''t1'', JStr ''t2'', JStr ''t3'']) []
          ((new_client ''peer'')\<lparr>track_mempool_block := MBIndex 0\<rparr>)
        = Inr (Some (stringify (full_payload (proj0 [JStr ''t1'', JStr ''t2''] [JStr ''t1'', JStr ''t2'', JStr ''t3'']) 0
            [JStr ''t1'', JStr ''t2'', JStr ''t3''])), cache'))"
proof -
  let ?txs = "[JStr ''t1'', JStr ''t2'', JStr ''t3'']"
  let ?p = "proj0 [JStr ''t1''] ?txs"
  let ?q = "proj0 [JStr ''t1'', JStr ''t2''] ?txs"
  let ?c = "(new_client ''peer'')\<lparr>track_mempool_block := MBIndex 0\<rparr>"
  have a1: "isInSync ?p" by (simp add: proj0_def)
  have a2: "track_mempool_block ?c = MBIndex 0" by simp
  have a3: "0 < length (mBlockDeltas ?p)" by (simp add: proj0_def)
  have a4: "truthy (mBlockDeltas ?p ! 0)" by (simp add: proj0_def)
  have a5: "delta_added (mBlockDeltas ?p ! 0) = Some [JStr ''t1'']" by (simp add: proj0_def delta_added_def)
  have a6: "transactions_at (mBlocksWithTransactions ?p) 0 = Some ?txs" by (simp add: proj0_def transactions_at_def)
  have a7: "?txs \<noteq> []" by simp
  have a8: "cache_clean ?p 0 []" by (simp add: cache_clean_def)
  have b1: "isInSync ?q" by (simp add: proj0_def)
  have b3: "0 < length (mBlockDeltas ?q)" by (simp add: proj0_def)
  have b4: "truthy (mBlockDeltas ?q ! 0)" by (simp add: proj0_def)
  have b5: "delta_added (mBlockDeltas ?q ! 0) = Some [JStr ''t1'', JStr ''t2'']" by (simp add: proj0_def delta_added_def)
  have b6: "transactions_at (mBlocksWithTransactions ?q) 0 = Some ?txs" by (simp add: proj0_def transactions_at_def)
  have b8: "cache_clean ?q 0 []" by (simp add: cache_clean_def)
  have r1: "\<exists>cache'. newblock_projected ?p [] ?c
        = Inr (Some (stringify (delta_payload 0 (mBlockDeltas ?p ! 0))), cache')"
    using newblock_projected_response[OF a1 a2 a3 a4 a5 a6 a7 a8] by auto
  have r2: "\<exists>cache'. newblock_projected ?q [] ?c
        = Inr (Some (stringify (full_payload ?q 0 ?txs)), cache')"
    using newblock_projected_response[OF b1 a2 b3 b4 b5 b6 a7 b8] by auto
  show ?thesis
    by (intro conjI) (fact a1 a2 a3 a4 a5 a6 a7 a8 r1 b1 b3 b4 b5 b6 b8 r2)+
qed

text \<open>
  C6 as stated fails when the projected block has no transactions: a delta exists and
  \<open>0 \<le> 0 / 2\<close>, but the handler sets no \<^verbatim>\<open>projected-block-transactions\<close>.
\<close>
theorem newblock_projected_response_counterexample:
  "isInSync (proj0 [] [])
   \<and> track_mempool_block ((new_client ''peer'')\<lparr>track_mempool_block := MBIndex 0\<rparr>) = MBIndex 0
   \<and> 0 < length (mBlockDeltas (proj0 [] []))
   \<and> truthy (mBlockDeltas (proj0 [] []) ! 0)
   \<and> delta_added (mBlockDeltas (proj0 [] []) ! 0) = Some []
   \<and> transactions_at (mBlocksWithTransactions (proj0 [] [])) 0 = Some []
   \<and> real (length ([] :: json list)) \<le> real (length ([] :: json list)) / 2
   \<and> newblock_projected (proj0 [] []) [] ((new_client ''peer'')\<lparr>track_mempool_block := MBIndex 0\<rparr>)
        = Inr (None, [])"
  by (simp add: proj0_def delta_added_def transactions_at_def newblock_projected_def)

end
